theory Spec2Isabelle
  imports Complex_Main "HOL-Library.Multiset"
begin

section \<open>Data model of \<^verbatim>\<open>task1/index.py\<close>\<close>

text \<open>
  The six SQLAlchemy models, one record per table row. A column declared without
  \<^verbatim>\<open>nullable=False\<close> and that is not a primary key may hold NULL, read by Python as
  \<^verbatim>\<open>None\<close>: such a column is an \<open>option\<close>. \<^verbatim>\<open>product_type\<close> is NOT NULL in the table,
  but \<^verbatim>\<open>get_threshold_for_product\<close> takes any \<^verbatim>\<open>Product\<close> object, whose attribute may
  still be \<^verbatim>\<open>None\<close> before it is flushed, so it is an \<open>option\<close> too.
  A naive \<^verbatim>\<open>datetime\<close> is the integer number of microseconds since its epoch.
\<close>

record company =
  Company_id :: int
  Company_name :: string

record warehouse =
  Warehouse_id :: int
  Warehouse_name :: string
  Warehouse_company_id :: "int option"

record supplier =
  Supplier_id :: int
  Supplier_name :: string
  Supplier_contact_email :: "string option"

record product =
  Product_id :: int
  Product_name :: string
  Product_sku :: string
  Product_product_type :: "string option"
  Product_supplier_id :: "int option"

record inventory =
  Inventory_id :: int
  Inventory_product_id :: "int option"
  Inventory_warehouse_id :: "int option"
  Inventory_quantity :: "int option"

record sale =
  Sale_id :: int
  Sale_product_id :: "int option"
  Sale_quantity :: int
  Sale_created_at :: "int option"

text \<open>The database: every table as the list of its rows, in the order a query returns them.\<close>

record db =
  companies :: "company list"
  warehouses :: "warehouse list"
  suppliers :: "supplier list"
  products :: "product list"
  inventories :: "inventory list"
  sales :: "sale list"

text \<open>The exceptions the endpoint can raise; an uncaught one aborts the request.\<close>

datatype py_error = AttributeError | TypeError | OverflowError | ZeroDivisionError

text \<open>The supplier object and the alert dictionary built at lines 162-178.\<close>

record supplier_obj =
  so_id :: int
  so_name :: string
  so_contact_email :: "string option"

record alert =
  alert_product_id :: int
  alert_product_name :: string
  alert_sku :: string
  alert_warehouse_id :: int
  alert_warehouse_name :: string
  alert_current_stock :: int
  alert_threshold :: int
  alert_days_until_stockout :: "int option"
  alert_supplier :: "supplier_obj option"

text \<open>The JSON body of a response; the endpoint returns it with an HTTP status.\<close>

datatype body = ErrorBody string | AlertsBody "alert list" nat

section \<open>Python arithmetic\<close>

text \<open>
  A Python \<^verbatim>\<open>float\<close> is an IEEE 754 binary64. A finite one is modelled by the rational it
  denotes; \<open>round_binary64\<close> rounds a rational to the nearest binary64 (ties to even,
  gradual underflow below \<open>2 powi (- 1022)\<close>) with the exponent unbounded above, and the
  operations below raise \<^verbatim>\<open>OverflowError\<close> where the rounded value exceeds the largest
  finite binary64.
\<close>

function bit_length :: "int \<Rightarrow> int" where
  "bit_length n = (if n \<le> 0 then 0 else 1 + bit_length (n div 2))"
  by pat_completeness auto
termination
  by (relation "measure nat") auto

declare bit_length.simps [simp del]

definition round_half_even :: "rat \<Rightarrow> int" where
  "round_half_even y =
     (let f = \<lfloor>y\<rfloor>; d = y - of_int f
      in if d < 1 / 2 then f else if 1 / 2 < d then f + 1 else if even f then f else f + 1)"

text \<open>For \<open>a > 0\<close>, \<open>binade a\<close> is the \<open>e\<close> with \<open>2 powi e \<le> a < 2 powi (e + 1)\<close>.\<close>

definition binade :: "rat \<Rightarrow> int" where
  "binade a =
     (let (p, q) = quotient_of a;
          e0 = bit_length p - bit_length q
      in if 2 powi e0 \<le> a then e0 else e0 - 1)"

definition round_binary64 :: "rat \<Rightarrow> rat" where
  "round_binary64 x =
     (if x = 0 then 0
      else let a = \<bar>x\<bar>;
               ulp = 2 powi (max (binade a) (- 1022) - 52)
           in sgn x * of_int (round_half_even (a / ulp)) * ulp)"

definition float_max :: rat where
  "float_max = (2 ^ 53 - 1) * 2 ^ 971"

text \<open>\<^verbatim>\<open>a / b\<close> on two ints: correctly rounded true division.\<close>

definition int_truediv :: "int \<Rightarrow> int \<Rightarrow> py_error + rat" where
  "int_truediv a b =
     (if b = 0 then Inl ZeroDivisionError
      else let r = round_binary64 (of_int a / of_int b)
           in if float_max < \<bar>r\<bar> then Inl OverflowError else Inr r)"

text \<open>The conversion of an int operand to float, as \<^verbatim>\<open>int / float\<close> does first.\<close>

definition float_of_int :: "int \<Rightarrow> py_error + rat" where
  "float_of_int n =
     (let r = round_binary64 (of_int n)
      in if float_max < \<bar>r\<bar> then Inl OverflowError else Inr r)"

text \<open>
  \<^verbatim>\<open>floor(n / x)\<close> for an int \<open>n\<close> and a nonzero float \<open>x\<close>: the quotient is rounded; where
  it overflows it is an infinity, and \<^verbatim>\<open>floor\<close> of an infinity raises \<^verbatim>\<open>OverflowError\<close>.
\<close>

definition floor_int_div_float :: "int \<Rightarrow> rat \<Rightarrow> py_error + int" where
  "floor_int_div_float n x =
     (case float_of_int n of
        Inl e \<Rightarrow> Inl e
      | Inr s \<Rightarrow>
          let q = round_binary64 (s / x)
          in if float_max < \<bar>q\<bar> then Inl OverflowError else Inr \<lfloor>q\<rfloor>)"

text \<open>
  The integers an SQLite INTEGER column stores and the driver binds as a query parameter:
  64-bit signed. Binding a larger Python int raises \<^verbatim>\<open>OverflowError\<close>.
\<close>

definition int64 :: "int \<Rightarrow> bool" where
  "int64 n \<longleftrightarrow> - (2 ^ 63) \<le> n \<and> n < 2 ^ 63"

text \<open>\<^verbatim>\<open>timedelta(days=n)\<close> in microseconds.\<close>

definition timedelta_days :: "int \<Rightarrow> int" where
  "timedelta_days n = n * 86400000000"

section \<open>Business rules / configuration\<close>

definition THRESHOLDS_BY_TYPE :: "(string \<times> int) list" where
  "THRESHOLDS_BY_TYPE = [(''fast-moving'', 50), (''normal'', 20), (''slow-moving'', 5)]"

definition SALES_LOOKBACK_DAYS :: int where
  "SALES_LOOKBACK_DAYS = 90"

definition SALES_AVG_DAYS :: int where
  "SALES_AVG_DAYS = 30"

section \<open>Helper functions\<close>

text \<open>
  \<^verbatim>\<open>THRESHOLDS_BY_TYPE.get(product_type, 10)\<close>: \<^verbatim>\<open>None\<close> is not a key of the dictionary.
\<close>

definition threshold_for_type :: "string option \<Rightarrow> int" where
  "threshold_for_type t =
     (case t of
        None \<Rightarrow> 10
      | Some s \<Rightarrow> (case map_of THRESHOLDS_BY_TYPE s of None \<Rightarrow> 10 | Some v \<Rightarrow> v))"

definition get_threshold_for_product :: "product \<Rightarrow> int" where
  "get_threshold_for_product p = threshold_for_type (Product_product_type p)"

text \<open>
  The comprehension \<^verbatim>\<open>[s for s in sales if s.created_at >= since]\<close>: comparing \<^verbatim>\<open>None\<close>
  with a datetime raises \<^verbatim>\<open>TypeError\<close>.
\<close>

fun sales_since :: "sale list \<Rightarrow> int \<Rightarrow> py_error + sale list" where
  "sales_since [] since = Inr []"
| "sales_since (s # ss) since =
     (case Sale_created_at s of
        None \<Rightarrow> Inl TypeError
      | Some t \<Rightarrow>
          (case sales_since ss since of
             Inl e \<Rightarrow> Inl e
           | Inr r \<Rightarrow> Inr (if since \<le> t then s # r else r)))"

text \<open>The relationship \<^verbatim>\<open>product.sales\<close>.\<close>

definition Product_sales :: "db \<Rightarrow> product \<Rightarrow> sale list" where
  "Product_sales d p = filter (\<lambda>s. Sale_product_id s = Some (Product_id p)) (sales d)"

definition get_recent_sales :: "db \<Rightarrow> product \<Rightarrow> int \<Rightarrow> py_error + sale list" where
  "get_recent_sales d p since = sales_since (Product_sales d p) since"

section \<open>Queries and relationships\<close>

text \<open>
  \<^verbatim>\<open>Company.query.get(company_id)\<close>: the identifier comes from the URL, whose \<^verbatim>\<open>int\<close>
  converter has no upper bound, and is bound as a query parameter; outside the 64-bit range
  the driver raises \<^verbatim>\<open>OverflowError\<close> before any row is looked up.
\<close>

definition Company_query_get :: "db \<Rightarrow> int \<Rightarrow> py_error + company option" where
  "Company_query_get d cid =
     (if int64 cid then Inr (find (\<lambda>c. Company_id c = cid) (companies d))
      else Inl OverflowError)"

text \<open>\<^verbatim>\<open>Product.query.get(None)\<close> is \<^verbatim>\<open>None\<close>.\<close>

definition Product_query_get :: "db \<Rightarrow> int option \<Rightarrow> product option" where
  "Product_query_get d pid =
     (case pid of None \<Rightarrow> None | Some k \<Rightarrow> find (\<lambda>p. Product_id p = k) (products d))"

definition Company_warehouses :: "db \<Rightarrow> company \<Rightarrow> warehouse list" where
  "Company_warehouses d c =
     filter (\<lambda>w. Warehouse_company_id w = Some (Company_id c)) (warehouses d)"

text \<open>\<^verbatim>\<open>Inventory.query.filter(Inventory.warehouse_id.in_(warehouse_ids)).all()\<close>\<close>

definition Inventory_query_in :: "db \<Rightarrow> int list \<Rightarrow> inventory list" where
  "Inventory_query_in d warehouse_ids =
     filter (\<lambda>i. case Inventory_warehouse_id i of None \<Rightarrow> False | Some w \<Rightarrow> w \<in> set warehouse_ids)
       (inventories d)"

definition Inventory_warehouse :: "db \<Rightarrow> inventory \<Rightarrow> warehouse option" where
  "Inventory_warehouse d i =
     (case Inventory_warehouse_id i of
        None \<Rightarrow> None
      | Some k \<Rightarrow> find (\<lambda>w. Warehouse_id w = k) (warehouses d))"

definition Product_supplier :: "db \<Rightarrow> product \<Rightarrow> supplier option" where
  "Product_supplier d p =
     (case Product_supplier_id p of
        None \<Rightarrow> None
      | Some k \<Rightarrow> find (\<lambda>s. Supplier_id s = k) (suppliers d))"

section \<open>Endpoint\<close>

text \<open>
  \<^verbatim>\<open>prod_inv_map.setdefault(inv.product_id, []).append(inv)\<close> on a dictionary kept as an
  association list in insertion order, which is the order \<^verbatim>\<open>items()\<close> iterates in.
\<close>

fun setdefault_append :: "('k \<times> 'v list) list \<Rightarrow> 'k \<Rightarrow> 'v \<Rightarrow> ('k \<times> 'v list) list" where
  "setdefault_append [] k v = [(k, [v])]"
| "setdefault_append ((k', vs) # m) k v =
     (if k' = k then (k', vs @ [v]) # m else (k', vs) # setdefault_append m k v)"

definition prod_inv_map :: "inventory list \<Rightarrow> (int option \<times> inventory list) list" where
  "prod_inv_map invs = foldl (\<lambda>m iv. setdefault_append m (Inventory_product_id iv) iv) [] invs"

text \<open>Line 149: \<^verbatim>\<open>total_sold_in_window / SALES_AVG_DAYS if SALES_AVG_DAYS > 0 else 0\<close>\<close>

definition avg_daily_sales :: "int \<Rightarrow> int \<Rightarrow> py_error + rat" where
  "avg_daily_sales total_sold_in_window avg_days =
     (if 0 < avg_days then int_truediv total_sold_in_window avg_days else Inr 0)"

text \<open>Lines 155-157.\<close>

definition days_until_stockout :: "int \<Rightarrow> rat \<Rightarrow> py_error + int option" where
  "days_until_stockout current_stock avg =
     (if 0 < avg then
        (case floor_int_div_float current_stock avg of
           Inl e \<Rightarrow> Inl e
         | Inr n \<Rightarrow> Inr (Some n))
      else Inr None)"

text \<open>Lines 159-166.\<close>

definition supplier_info :: "db \<Rightarrow> product \<Rightarrow> supplier_obj option" where
  "supplier_info d p =
     (case Product_supplier d p of
        None \<Rightarrow> None
      | Some s \<Rightarrow>
          Some \<lparr>so_id = Supplier_id s, so_name = Supplier_name s,
                so_contact_email = Supplier_contact_email s\<rparr>)"

text \<open>The dictionary appended at lines 168-178.\<close>

definition make_alert ::
  "db \<Rightarrow> product \<Rightarrow> warehouse \<Rightarrow> int \<Rightarrow> int \<Rightarrow> int option \<Rightarrow> alert" where
  "make_alert d p w current_stock thr days =
     \<lparr>alert_product_id = Product_id p,
      alert_product_name = Product_name p,
      alert_sku = Product_sku p,
      alert_warehouse_id = Warehouse_id w,
      alert_warehouse_name = Warehouse_name w,
      alert_current_stock = current_stock,
      alert_threshold = thr,
      alert_days_until_stockout = days,
      alert_supplier = supplier_info d p\<rparr>"

text \<open>The inner loop, lines 151-178: \<open>alerts\<close> is the list appended to.\<close>

fun inv_loop ::
  "db \<Rightarrow> product \<Rightarrow> int \<Rightarrow> rat \<Rightarrow> inventory list \<Rightarrow> alert list \<Rightarrow> py_error + alert list" where
  "inv_loop d p thr avg [] alerts = Inr alerts"
| "inv_loop d p thr avg (iv # rest) alerts =
     (case Inventory_quantity iv of
        None \<Rightarrow> Inl TypeError
      | Some current_stock \<Rightarrow>
          if current_stock < thr then
            (case days_until_stockout current_stock avg of
               Inl e \<Rightarrow> Inl e
             | Inr days \<Rightarrow>
                 (case Inventory_warehouse d iv of
                    None \<Rightarrow> Inl AttributeError
                  | Some w \<Rightarrow>
                      inv_loop d p thr avg rest
                        (alerts @ [make_alert d p w current_stock thr days])))
          else inv_loop d p thr avg rest alerts)"

text \<open>The outer loop, lines 136-178, over the items of \<^verbatim>\<open>prod_inv_map\<close>.\<close>

fun product_loop ::
  "db \<Rightarrow> int \<Rightarrow> int \<Rightarrow> (int option \<times> inventory list) list \<Rightarrow> alert list
     \<Rightarrow> py_error + alert list" where
  "product_loop d lookback_cutoff avg_sales_cutoff [] alerts = Inr alerts"
| "product_loop d lookback_cutoff avg_sales_cutoff ((product_id, inv_list) # rest) alerts =
     (case Product_query_get d product_id of
        None \<Rightarrow> Inl AttributeError
      | Some p \<Rightarrow>
          (case sales_since (Product_sales d p) lookback_cutoff of
             Inl e \<Rightarrow> Inl e
           | Inr recent_sales \<Rightarrow>
               if recent_sales = [] then
                 product_loop d lookback_cutoff avg_sales_cutoff rest alerts
               else
                 (case sales_since (Product_sales d p) avg_sales_cutoff of
                    Inl e \<Rightarrow> Inl e
                  | Inr sales_for_avg \<Rightarrow>
                      (case avg_daily_sales (sum_list (map Sale_quantity sales_for_avg))
                              SALES_AVG_DAYS of
                         Inl e \<Rightarrow> Inl e
                       | Inr avg \<Rightarrow>
                           (case inv_loop d p (get_threshold_for_product p) avg inv_list alerts of
                              Inl e \<Rightarrow> Inl e
                            | Inr alerts' \<Rightarrow>
                                product_loop d lookback_cutoff avg_sales_cutoff rest alerts')))))"

text \<open>
  The endpoint. \<open>now\<close> is the value \<^verbatim>\<open>datetime.utcnow()\<close> returns at line 120. The result
  is an uncaught exception or the pair of the JSON body and the HTTP status.
\<close>

definition low_stock_alerts :: "db \<Rightarrow> int \<Rightarrow> int \<Rightarrow> py_error + (body \<times> nat)" where
  "low_stock_alerts d company_id now =
     (case Company_query_get d company_id of
        Inl e \<Rightarrow> Inl e
      | Inr None \<Rightarrow> Inr (ErrorBody ''Company not found'', 404)
      | Inr (Some c) \<Rightarrow>
          let lookback_cutoff = now - timedelta_days SALES_LOOKBACK_DAYS;
              avg_sales_cutoff = now - timedelta_days SALES_AVG_DAYS;
              warehouse_ids = map Warehouse_id (Company_warehouses d c);
              invs = Inventory_query_in d warehouse_ids
          in (case product_loop d lookback_cutoff avg_sales_cutoff (prod_inv_map invs) [] of
                Inl e \<Rightarrow> Inl e
              | Inr alerts \<Rightarrow> Inr (AlertsBody alerts (length alerts), 200)))"

section \<open>What the loop body computes for a product\<close>

text \<open>
  Line 139 tests whether the product has a sale at or after the lookback cutoff; lines
  147-149 yield, when nothing raises, the binary64 quotient of the quantities sold at or
  after the averaging cutoff by \<^verbatim>\<open>SALES_AVG_DAYS\<close>.
\<close>

definition recent_activity :: "db \<Rightarrow> product \<Rightarrow> int \<Rightarrow> bool" where
  "recent_activity d p cutoff \<longleftrightarrow>
     (\<exists>s \<in> set (Product_sales d p). \<exists>t. Sale_created_at s = Some t \<and> cutoff \<le> t)"

definition product_avg :: "db \<Rightarrow> product \<Rightarrow> int \<Rightarrow> rat" where
  "product_avg d p cutoff =
     round_binary64
       (of_int (sum_list (map Sale_quantity
          (filter (\<lambda>s. case Sale_created_at s of None \<Rightarrow> False | Some t \<Rightarrow> cutoff \<le> t)
             (Product_sales d p))))
        / of_int SALES_AVG_DAYS)"

section \<open>Two readings of the same data\<close>

text \<open>
  No query of the endpoint has an ORDER BY. Two readings of unchanged tables hold the same
  rows; \<open>same_rows\<close> lets every table but the inventory one come back in another order. The
  primary keys are unique.
\<close>

definition same_rows :: "db \<Rightarrow> db \<Rightarrow> bool" where
  "same_rows d1 d2 \<longleftrightarrow>
     inventories d1 = inventories d2
     \<and> mset (companies d1) = mset (companies d2)
     \<and> mset (warehouses d1) = mset (warehouses d2)
     \<and> mset (suppliers d1) = mset (suppliers d2)
     \<and> mset (products d1) = mset (products d2)
     \<and> mset (sales d1) = mset (sales d2)"

definition unique_keys :: "db \<Rightarrow> bool" where
  "unique_keys d \<longleftrightarrow>
     distinct (map Company_id (companies d))
     \<and> distinct (map Warehouse_id (warehouses d))
     \<and> distinct (map Supplier_id (suppliers d))
     \<and> distinct (map Product_id (products d))"

section \<open>Integrity of the stored data\<close>

text \<open>
  What the data model promises and the schema does not enforce: every inventory row has a
  quantity and references an existing product, every sale has a timestamp. The stored
  integers are 64-bit signed, and a table has fewer than \<open>2 ^ 64\<close> rows.
\<close>

definition db_ok :: "db \<Rightarrow> bool" where
  "db_ok d \<longleftrightarrow>
     (\<forall>iv \<in> set (inventories d).
        (case Inventory_quantity iv of None \<Rightarrow> False | Some q \<Rightarrow> int64 q)
        \<and> Product_query_get d (Inventory_product_id iv) \<noteq> None)
     \<and> (\<forall>s \<in> set (sales d). Sale_created_at s \<noteq> None \<and> int64 (Sale_quantity s))
     \<and> length (sales d) < 2 ^ 64"

section \<open>A sample database\<close>

text \<open>The rows \<^verbatim>\<open>seed_sample_data\<close> inserts, for a \<open>now\<close> of 400 days after the epoch.\<close>

definition seed_db :: db where
  "seed_db =
     \<lparr>companies = [\<lparr>Company_id = 1, Company_name = ''Acme Corp''\<rparr>],
      warehouses =
        [\<lparr>Warehouse_id = 1, Warehouse_name = ''Main Warehouse'', Warehouse_company_id = Some 1\<rparr>,
         \<lparr>Warehouse_id = 2, Warehouse_name = ''Overflow Warehouse'', Warehouse_company_id = Some 1\<rparr>],
      suppliers =
        [\<lparr>Supplier_id = 1, Supplier_name = ''Supplier Corp'',
          Supplier_contact_email = Some ''orders@supplier.com''\<rparr>,
         \<lparr>Supplier_id = 2, Supplier_name = ''Another Supplies'',
          Supplier_contact_email = Some ''hello@another.com''\<rparr>],
      products =
        [\<lparr>Product_id = 1, Product_name = ''Widget A'', Product_sku = ''WID-001'',
          Product_product_type = Some ''normal'', Product_supplier_id = Some 1\<rparr>,
         \<lparr>Product_id = 2, Product_name = ''Gizmo B'', Product_sku = ''GIZ-002'',
          Product_product_type = Some ''fast-moving'', Product_supplier_id = Some 2\<rparr>],
      inventories =
        [\<lparr>Inventory_id = 1, Inventory_product_id = Some 1, Inventory_warehouse_id = Some 1,
          Inventory_quantity = Some 5\<rparr>,
         \<lparr>Inventory_id = 2, Inventory_product_id = Some 1, Inventory_warehouse_id = Some 2,
          Inventory_quantity = Some 0\<rparr>,
         \<lparr>Inventory_id = 3, Inventory_product_id = Some 2, Inventory_warehouse_id = Some 1,
          Inventory_quantity = Some 200\<rparr>,
         \<lparr>Inventory_id = 4, Inventory_product_id = Some 2, Inventory_warehouse_id = Some 2,
          Inventory_quantity = Some 10\<rparr>],
      sales =
        [\<lparr>Sale_id = 1, Sale_product_id = Some 1, Sale_quantity = 10,
          Sale_created_at = Some (timedelta_days 395)\<rparr>,
         \<lparr>Sale_id = 2, Sale_product_id = Some 2, Sale_quantity = 100,
          Sale_created_at = Some (timedelta_days 200)\<rparr>,
         \<lparr>Sale_id = 3, Sale_product_id = Some 2, Sale_quantity = 60,
          Sale_created_at = Some (timedelta_days 390)\<rparr>]\<rparr>"

definition seed_now :: int where
  "seed_now = timedelta_days 400"

text \<open>The sample rows with every table but the inventory one read back to front.\<close>

definition seed_db_reordered :: db where
  "seed_db_reordered =
     seed_db\<lparr>warehouses := rev (warehouses seed_db), suppliers := rev (suppliers seed_db),
       products := rev (products seed_db), sales := rev (sales seed_db)\<rparr>"

text \<open>
  One company with warehouse W1, one product of type \<^verbatim>\<open>normal\<close>, one inventory row of 5 in
  W1 and one sale of 10 on day 395.
\<close>

definition scenario_db :: db where
  "scenario_db =
     \<lparr>companies = [\<lparr>Company_id = 1, Company_name = ''Acme Corp''\<rparr>],
      warehouses =
        [\<lparr>Warehouse_id = 1, Warehouse_name = ''W1'', Warehouse_company_id = Some 1\<rparr>],
      suppliers = [],
      products =
        [\<lparr>Product_id = 1, Product_name = ''Widget A'', Product_sku = ''WID-001'',
          Product_product_type = Some ''normal'', Product_supplier_id = None\<rparr>],
      inventories =
        [\<lparr>Inventory_id = 1, Inventory_product_id = Some 1, Inventory_warehouse_id = Some 1,
          Inventory_quantity = Some 5\<rparr>],
      sales =
        [\<lparr>Sale_id = 1, Sale_product_id = Some 1, Sale_quantity = 10,
          Sale_created_at = Some (timedelta_days 395)\<rparr>]\<rparr>"

text \<open>A company that owns nothing yet.\<close>

definition empty_db :: db where
  "empty_db =
     \<lparr>companies = [\<lparr>Company_id = 3, Company_name = ''Newco''\<rparr>],
      warehouses = [], suppliers = [], products = [], inventories = [], sales = []\<rparr>"

section \<open>Rounding to binary64\<close>

lemma bit_length_nonneg: "0 \<le> bit_length n"
proof (induction n rule: bit_length.induct)
  case (1 n)
  then show ?case by (cases "n \<le> 0") (simp_all add: bit_length.simps [of n])
qed

lemma bit_length_pos: "0 < n \<Longrightarrow> 0 < bit_length n"
  using bit_length_nonneg [of "n div 2"] by (simp add: bit_length.simps [of n])

lemma bit_length_bounds:
  "0 < n \<Longrightarrow> (2::rat) powi (bit_length n - 1) \<le> of_int n \<and> of_int n < (2::rat) powi bit_length n"
proof (induction n rule: bit_length.induct)
  case (1 n)
  show ?case
  proof (cases "n = 1")
    case True
    then show ?thesis by (simp add: bit_length.simps [of 1] bit_length.simps [of 0])
  next
    case False
    with 1 have h: "0 < n div 2" by simp
    with 1 have ih: "(2::rat) powi (bit_length (n div 2) - 1) \<le> of_int (n div 2)"
      "of_int (n div 2) < (2::rat) powi bit_length (n div 2)" by simp_all
    have bl: "bit_length n = 1 + bit_length (n div 2)"
      using 1 by (simp add: bit_length.simps [of n])
    have p: "0 < bit_length (n div 2)" using h by (rule bit_length_pos)
    define k where "k = nat (bit_length (n div 2) - 1)"
    have k: "bit_length (n div 2) = int (Suc k)"
      using p by (simp add: k_def)
    have k1: "bit_length (n div 2) - 1 = int k"
      using p by (simp add: k_def)
    have "(2::rat) ^ k \<le> of_int (n div 2)"
      using ih(1) unfolding k1 power_int_of_nat .
    then have "rat_of_int (2 ^ k) \<le> of_int (n div 2)" by simp
    then have a1: "(2::int) ^ k \<le> n div 2" by (simp only: of_int_le_iff)
    have "of_int (n div 2) < (2::rat) ^ Suc k"
      using ih(2) unfolding k power_int_of_nat .
    then have "rat_of_int (n div 2) < of_int (2 ^ Suc k)" by simp
    then have a2: "n div 2 < (2::int) ^ Suc k" by (simp only: of_int_less_iff)
    note a = a1 a2
    have "(2::int) ^ Suc k \<le> n" "n < 2 ^ Suc (Suc k)" using a by auto
    then have "(2::rat) ^ Suc k \<le> of_int n" "of_int n < (2::rat) ^ Suc (Suc k)"
      by (metis of_int_le_iff of_int_power of_int_numeral, metis of_int_less_iff of_int_power of_int_numeral)
    moreover have "bit_length n - 1 = int (Suc k)" "bit_length n = int (Suc (Suc k))"
      using bl k by simp_all
    ultimately show ?thesis by (simp only: power_int_of_nat)
  qed
qed


lemma binade_bounds:
  assumes "0 < a"
  shows "2 powi binade a \<le> a" and "a < 2 powi (binade a + 1)"
proof -
  obtain p q where pq: "quotient_of a = (p, q)" by (cases "quotient_of a")
  have q: "0 < q" using pq by (rule quotient_of_denom_pos)
  have a: "a = of_int p / of_int q" using pq by (rule quotient_of_div)
  have p: "0 < p" using assms q unfolding a by (simp add: zero_less_divide_iff)
  define P where "P = bit_length p"
  define Q where "Q = bit_length q"
  have bp: "(2::rat) powi (P - 1) \<le> of_int p" "of_int p < (2::rat) powi P"
    using bit_length_bounds [OF p] by (simp_all add: P_def)
  have bq: "(2::rat) powi (Q - 1) \<le> of_int q" "of_int q < (2::rat) powi Q"
    using bit_length_bounds [OF q] by (simp_all add: Q_def)
  have pos: "\<And>k. 0 < (2::rat) powi k" by simp
  have "a < 2 powi P / 2 powi (Q - 1)"
    unfolding a using p bp(2) pos [of "Q - 1"] bq(1) by (intro frac_less) simp_all
  also have "\<dots> = 2 powi (P - Q + 1)"
    by (simp add: power_int_diff power_int_add)
  finally have up: "a < 2 powi (P - Q + 1)" .
  have "2 powi (P - 1) / 2 powi Q < a"
    unfolding a using q bp(1) pos [of "P - 1"] bq(2) by (intro frac_less2) simp_all
  moreover have "(2::rat) powi (P - 1) / 2 powi Q = 2 powi (P - Q - 1)"
    by (simp add: power_int_diff)
  ultimately have lo: "2 powi (P - Q - 1) < a" by simp
  have b: "binade a = (if 2 powi (P - Q) \<le> a then P - Q else P - Q - 1)"
    by (simp add: binade_def pq P_def Q_def Let_def)
  show "2 powi binade a \<le> a" using lo by (simp add: b)
  show "a < 2 powi (binade a + 1)" using up by (simp add: b not_le)
qed

lemma round_half_even_bounds:
  "of_int (round_half_even y) \<le> y + 1 / 2" "y - 1 / 2 \<le> of_int (round_half_even y)"
proof -
  define f where "f = \<lfloor>y\<rfloor>"
  have f: "of_int f \<le> y" "y < of_int f + 1" unfolding f_def by linarith+
  have r: "round_half_even y =
      (if y - of_int f < 1 / 2 then f else if 1 / 2 < y - of_int f then f + 1
       else if even f then f else f + 1)"
    by (simp add: round_half_even_def Let_def f_def)
  show "of_int (round_half_even y) \<le> y + 1 / 2"
    unfolding r using f by (simp split: if_splits)
  show "y - 1 / 2 \<le> of_int (round_half_even y)"
    unfolding r using f by (simp split: if_splits)
qed

lemma round_half_even_nonneg: "0 \<le> y \<Longrightarrow> 0 \<le> round_half_even y"
  by (auto simp add: round_half_even_def Let_def)

lemma round_binary64_zero: "round_binary64 0 = 0"
  by (simp add: round_binary64_def)

lemma round_binary64_nonneg: "0 \<le> x \<Longrightarrow> 0 \<le> round_binary64 x"
  by (simp add: round_binary64_def Let_def round_half_even_nonneg)

lemma round_binary64_nonpos: "x \<le> 0 \<Longrightarrow> round_binary64 x \<le> 0"
proof (cases "x = 0")
  case True
  then show ?thesis by (simp add: round_binary64_def)
next
  case False
  assume "x \<le> 0"
  with False have s: "sgn x = - 1" by simp
  define ulp :: rat where "ulp = 2 powi (max (binade \<bar>x\<bar>) (- 1022) - 52)"
  have ulp: "0 < ulp" by (simp add: ulp_def)
  have "0 \<le> round_half_even (\<bar>x\<bar> / ulp)"
    using ulp by (intro round_half_even_nonneg) simp
  then have "0 \<le> of_int (round_half_even (\<bar>x\<bar> / ulp)) * ulp"
    using ulp by simp
  moreover have "round_binary64 x = - (of_int (round_half_even (\<bar>x\<bar> / ulp)) * ulp)"
    using False s by (simp add: round_binary64_def Let_def ulp_def)
  ultimately show ?thesis by simp
qed

lemma round_binary64_error:
  "\<bar>round_binary64 x - x\<bar> \<le> 2 powi (max (binade \<bar>x\<bar>) (- 1022) - 53)"
proof (cases "x = 0")
  case True
  then show ?thesis by (simp add: round_binary64_def)
next
  case False
  define ulp :: rat where "ulp = 2 powi (max (binade \<bar>x\<bar>) (- 1022) - 52)"
  define m where "m = round_half_even (\<bar>x\<bar> / ulp)"
  have ulp: "0 < ulp" by (simp add: ulp_def)
  have r: "round_binary64 x = sgn x * of_int m * ulp"
    using False by (simp add: round_binary64_def Let_def ulp_def m_def)
  have "round_binary64 x - x = sgn x * (of_int m * ulp - \<bar>x\<bar>)"
    unfolding r by (simp add: algebra_simps sgn_if abs_if)
  then have "\<bar>round_binary64 x - x\<bar> = \<bar>of_int m * ulp - \<bar>x\<bar>\<bar>"
    using False by (simp add: abs_mult)
  also have "of_int m * ulp - \<bar>x\<bar> = (of_int m - \<bar>x\<bar> / ulp) * ulp"
    using ulp by (simp add: algebra_simps)
  also have "\<bar>\<dots>\<bar> = \<bar>of_int m - \<bar>x\<bar> / ulp\<bar> * ulp"
    using ulp by (simp add: abs_mult)
  also have "\<dots> \<le> (1 / 2) * ulp"
  proof (rule mult_right_mono)
    show "\<bar>of_int m - \<bar>x\<bar> / ulp\<bar> \<le> 1 / 2"
      using round_half_even_bounds [of "\<bar>x\<bar> / ulp"] unfolding m_def by linarith
    show "0 \<le> ulp" using ulp by simp
  qed
  also have "\<dots> = 2 powi (max (binade \<bar>x\<bar>) (- 1022) - 53)"
    by (simp add: ulp_def power_int_diff)
  finally show ?thesis .
qed

lemma round_binary64_upper:
  assumes "2 powi (- 1022) \<le> B" and "\<bar>x\<bar> \<le> B"
  shows "\<bar>round_binary64 x\<bar> \<le> 2 * B"
proof (cases "x = 0")
  case True
  then show ?thesis using assms by (simp add: round_binary64_def)
next
  case False
  then have a: "0 < \<bar>x\<bar>" by simp
  have "(2::rat) powi (max (binade \<bar>x\<bar>) (- 1022) - 53) \<le> B"
  proof (cases "- 1022 \<le> binade \<bar>x\<bar>")
    case True
    then have "(2::rat) powi (max (binade \<bar>x\<bar>) (- 1022) - 53) = 2 powi (binade \<bar>x\<bar> - 53)"
      by (simp add: max_def)
    also have "\<dots> \<le> 2 powi binade \<bar>x\<bar>"
      by (rule power_int_increasing) simp_all
    also have "\<dots> \<le> \<bar>x\<bar>" using a by (rule binade_bounds)
    finally show ?thesis using assms(2) by simp
  next
    case False
    then have "(2::rat) powi (max (binade \<bar>x\<bar>) (- 1022) - 53) = 2 powi (- 1075)"
      by (simp add: max_def)
    also have "\<dots> \<le> 2 powi (- 1022)"
      by (rule power_int_increasing) simp_all
    finally show ?thesis using assms(1) by simp
  qed
  with round_binary64_error [of x] have "\<bar>round_binary64 x - x\<bar> \<le> B" by simp
  with assms(2) show ?thesis by linarith
qed

lemma round_binary64_lower:
  assumes "2 powi (- 1022) \<le> x"
  shows "x / 2 \<le> round_binary64 x"
proof -
  have "(0::rat) < 2 powi (- 1022)" by simp
  with assms have x: "0 < x" by linarith
  then have ax: "\<bar>x\<bar> = x" by simp
  have "(2::rat) powi (- 1022) < 2 powi (binade x + 1)"
    using assms binade_bounds(2) [OF x] by linarith
  have "- 1022 < binade x + 1"
  proof (rule ccontr)
    assume "\<not> - 1022 < binade x + 1"
    then have "binade x + 1 \<le> - 1022" by simp
    then have "(2::rat) powi (binade x + 1) \<le> 2 powi (- 1022)"
      by (rule power_int_increasing) simp
    with \<open>(2::rat) powi (- 1022) < 2 powi (binade x + 1)\<close> show False by simp
  qed
  then have "(2::rat) powi (max (binade \<bar>x\<bar>) (- 1022) - 53) = 2 powi (binade x - 53)"
    by (simp add: max_def ax)
  also have "\<dots> \<le> 2 powi (binade x - 1)"
    by (rule power_int_increasing) simp_all
  also have "\<dots> = 2 powi binade x / 2"
    by (simp add: power_int_diff)
  also have "\<dots> \<le> x / 2" using binade_bounds(1) [OF x] by simp
  finally have "\<bar>round_binary64 x - x\<bar> \<le> x / 2"
    using round_binary64_error [of x] by simp
  then show ?thesis by linarith
qed

section \<open>No overflow on stored data\<close>

lemma float_max_ge: "(2::rat) ^ 128 \<le> float_max"
  by (simp add: float_max_def)

lemma pow2_m1022_le: "(2::rat) powi (- 1022) \<le> 1"
proof -
  have "(2::rat) powi (- 1022) \<le> 2 powi 0"
    by (rule power_int_increasing) simp_all
  then show ?thesis by simp
qed

lemma round_binary64_in_range:
  assumes "1 \<le> B" and "\<bar>x\<bar> \<le> B" and "2 * B \<le> float_max"
  shows "\<not> float_max < \<bar>round_binary64 x\<bar>"
proof -
  have "2 powi (- 1022) \<le> B" using pow2_m1022_le assms(1) by linarith
  then have "\<bar>round_binary64 x\<bar> \<le> 2 * B" using assms(2) by (rule round_binary64_upper)
  with assms(3) show ?thesis by linarith
qed

lemma int_truediv_ok:
  assumes "b \<noteq> 0" and "\<bar>a\<bar> \<le> 2 ^ 127"
  shows "int_truediv a b = Inr (round_binary64 (of_int a / of_int b))"
proof -
  have b1: "1 \<le> \<bar>rat_of_int b\<bar>"
  proof -
    have "1 \<le> \<bar>b\<bar>" using assms(1) by simp
    then have "rat_of_int 1 \<le> of_int \<bar>b\<bar>" by (simp only: of_int_le_iff)
    then show ?thesis by simp
  qed
  have "\<bar>rat_of_int a\<bar> / \<bar>of_int b\<bar> \<le> \<bar>of_int a\<bar> / 1"
    using b1 by (intro divide_left_mono) simp_all
  then have "\<bar>rat_of_int a / of_int b\<bar> \<le> \<bar>of_int a\<bar>"
    by (simp add: abs_divide)
  also have "\<dots> \<le> 2 ^ 127"
    using assms(2) by (metis of_int_abs of_int_le_iff of_int_numeral of_int_power)
  finally have "\<bar>rat_of_int a / of_int b\<bar> \<le> 2 ^ 127" .
  then have "\<not> float_max < \<bar>round_binary64 (of_int a / of_int b)\<bar>"
    by (rule round_binary64_in_range [rotated]) (simp_all add: float_max_def)
  then show ?thesis using assms(1) by (simp add: int_truediv_def Let_def)
qed


lemma of_int_abs_le_pow: "\<bar>n\<bar> \<le> 2 ^ k \<Longrightarrow> \<bar>rat_of_int n\<bar> \<le> 2 ^ k"
  by (metis of_int_abs of_int_le_iff of_int_numeral of_int_power)

lemma float_of_int_ok:
  assumes "\<bar>n\<bar> \<le> 2 ^ 63"
  shows "float_of_int n = Inr (round_binary64 (of_int n))"
    and "\<bar>round_binary64 (rat_of_int n)\<bar> \<le> 2 ^ 64"
proof -
  have n: "\<bar>rat_of_int n\<bar> \<le> 2 ^ 63" using assms by (rule of_int_abs_le_pow)
  have "(2::rat) powi (- 1022) \<le> 2 ^ 63" using pow2_m1022_le by simp
  then have "\<bar>round_binary64 (rat_of_int n)\<bar> \<le> 2 * 2 ^ 63"
    using n by (rule round_binary64_upper)
  then show u: "\<bar>round_binary64 (rat_of_int n)\<bar> \<le> 2 ^ 64" by simp
  have "(2::rat) ^ 64 \<le> float_max" by (simp add: float_max_def)
  with u have "\<not> float_max < \<bar>round_binary64 (rat_of_int n)\<bar>" by linarith
  then show "float_of_int n = Inr (round_binary64 (of_int n))"
    by (simp add: float_of_int_def Let_def)
qed

text \<open>A positive average over a positive window of at most \<open>2 ^ 63\<close> days is not tiny.\<close>

lemma avg_daily_sales_pos_lower:
  assumes "avg_daily_sales tot days = Inr avg" and "0 < avg" and "days \<le> 2 ^ 63"
  shows "1 / 2 ^ 64 \<le> avg"
proof -
  have d: "0 < days"
    using assms(1,2) by (cases "0 < days") (simp_all add: avg_daily_sales_def)
  then have avg: "avg = round_binary64 (of_int tot / of_int days)"
    using assms(1) by (simp add: avg_daily_sales_def int_truediv_def Let_def split: if_splits)
  have "0 < tot"
  proof (rule ccontr)
    assume "\<not> 0 < tot"
    then have "rat_of_int tot / of_int days \<le> 0"
      using d by (simp add: divide_le_0_iff)
    then have "avg \<le> 0" unfolding avg by (rule round_binary64_nonpos)
    with assms(2) show False by simp
  qed
  then have "1 \<le> rat_of_int tot" by (metis of_int_1_le_iff int_one_le_iff_zero_less)
  moreover have dd: "0 < rat_of_int days" "rat_of_int days \<le> 2 ^ 63"
    using d assms(3) by (simp, metis of_int_le_iff of_int_numeral of_int_power)
  ultimately have "1 / 2 ^ 63 \<le> rat_of_int tot / of_int days"
    by (intro frac_le) simp_all
  moreover have "(2::rat) powi (- 1022) \<le> 1 / 2 ^ 63"
  proof -
    have "(2::rat) powi (- 1022) \<le> 2 powi (- 63)"
      by (rule power_int_increasing) simp_all
    then show ?thesis by (simp add: power_int_minus_divide)
  qed
  ultimately have "2 powi (- 1022) \<le> rat_of_int tot / of_int days" by linarith
  then have "rat_of_int tot / of_int days / 2 \<le> avg"
    unfolding avg by (rule round_binary64_lower)
  moreover have "(1::rat) / 2 ^ 63 / 2 \<le> rat_of_int tot / of_int days / 2"
    using \<open>1 / 2 ^ 63 \<le> rat_of_int tot / of_int days\<close> by (rule divide_right_mono) simp
  moreover have "(1::rat) / 2 ^ 64 = 1 / 2 ^ 63 / 2" by simp
  ultimately show ?thesis by linarith
qed

lemma floor_int_div_float_ok:
  assumes "\<bar>n\<bar> \<le> 2 ^ 63" and "1 / 2 ^ 64 \<le> x"
  shows "floor_int_div_float n x = Inr \<lfloor>round_binary64 (round_binary64 (of_int n) / x)\<rfloor>"
proof -
  define s where "s = round_binary64 (rat_of_int n)"
  have s: "\<bar>s\<bar> \<le> 2 ^ 64" unfolding s_def using assms(1) by (rule float_of_int_ok(2))
  have x: "0 < x" using assms(2) by (rule less_le_trans [rotated]) simp
  have "\<bar>s / x\<bar> = \<bar>s\<bar> / x" using x by (simp add: abs_divide)
  also have "\<dots> \<le> 2 ^ 64 / (1 / 2 ^ 64)"
    using s assms(2) by (intro frac_le) simp_all
  also have "\<dots> = 2 ^ 128" by simp
  finally have "\<bar>s / x\<bar> \<le> 2 ^ 128" .
  then have "\<not> float_max < \<bar>round_binary64 (s / x)\<bar>"
    by (rule round_binary64_in_range [rotated]) (simp_all add: float_max_def)
  then show ?thesis
    using float_of_int_ok(1) [OF assms(1)] by (simp add: floor_int_div_float_def Let_def s_def)
qed


section \<open>Sales filters and sums\<close>

lemma sales_since_ok:
  "\<forall>s \<in> set ss. Sale_created_at s \<noteq> None \<Longrightarrow>
   sales_since ss since =
     Inr (filter (\<lambda>s. case Sale_created_at s of None \<Rightarrow> False | Some t \<Rightarrow> since \<le> t) ss)"
  by (induction ss) auto

lemma sales_since_Inr:
  "sales_since ss since = Inr r \<Longrightarrow> \<forall>s \<in> set ss. Sale_created_at s \<noteq> None"
  by (induction ss arbitrary: r) (auto split: option.splits sum.splits)

lemma sales_since_Inr_iff:
  "sales_since ss since = Inr r \<longleftrightarrow>
     (\<forall>s \<in> set ss. Sale_created_at s \<noteq> None)
     \<and> r = filter (\<lambda>s. case Sale_created_at s of None \<Rightarrow> False | Some t \<Rightarrow> since \<le> t) ss"
  using sales_since_ok [of ss since] sales_since_Inr [of ss since r] by auto

lemma sum_list_abs_bound:
  "\<forall>x \<in> set xs. \<bar>f x\<bar> \<le> (B::int) \<Longrightarrow> \<bar>sum_list (map f xs)\<bar> \<le> int (length xs) * B"
proof (induction xs)
  case Nil
  then show ?case by simp
next
  case (Cons x xs)
  then have "\<bar>f x\<bar> \<le> B" "\<bar>sum_list (map f xs)\<bar> \<le> int (length xs) * B" by simp_all
  then show ?case by (simp add: algebra_simps)
qed

lemma int64_abs: "int64 n \<Longrightarrow> \<bar>n\<bar> \<le> 2 ^ 63"
  by (simp add: int64_def abs_le_iff)

lemma sold_quantity_bound:
  assumes "\<forall>s \<in> set ss. int64 (Sale_quantity s)" and "length ss < 2 ^ 64"
  shows "\<bar>sum_list (map Sale_quantity (filter P ss))\<bar> \<le> 2 ^ 127"
proof -
  have "\<forall>s \<in> set (filter P ss). \<bar>Sale_quantity s\<bar> \<le> 2 ^ 63"
    using assms(1) by (auto dest!: int64_abs)
  then have "\<bar>sum_list (map Sale_quantity (filter P ss))\<bar> \<le> int (length (filter P ss)) * 2 ^ 63"
    by (rule sum_list_abs_bound)
  also have "\<dots> \<le> int (length ss) * 2 ^ 63"
    by (simp add: mult_right_mono)
  also have "\<dots> \<le> 2 ^ 64 * 2 ^ 63"
  proof (rule mult_right_mono)
    have "int (length ss) < int (2 ^ 64)" using assms(2) by (simp only: of_nat_less_iff)
    then show "int (length ss) \<le> 2 ^ 64" by simp
  qed simp
  finally show ?thesis by simp
qed

lemma avg_daily_sales_ok:
  assumes "\<bar>tot\<bar> \<le> 2 ^ 127"
  shows "avg_daily_sales tot days =
    Inr (if days \<le> 0 then 0 else round_binary64 (of_int tot / of_int days))"
  using int_truediv_ok [of days tot] assms by (simp add: avg_daily_sales_def)

lemma round_binary64_third:
  "round_binary64 (1 / 3) = 6004799503160661 / 18014398509481984"
  by code_simp

section \<open>Queries and the grouping dictionary\<close>

lemma Inventory_query_in_Nil: "Inventory_query_in d [] = []"
  by (simp add: Inventory_query_in_def split: option.splits)

lemma prod_inv_map_Nil: "prod_inv_map [] = []"
  by (simp add: prod_inv_map_def)

lemma Product_query_get_Some:
  "Product_query_get d pid = Some p \<Longrightarrow> pid = Some (Product_id p) \<and> p \<in> set (products d)"
  by (auto simp add: Product_query_get_def find_Some_iff split: option.splits)

lemma Inventory_warehouse_Some:
  "Inventory_warehouse d iv = Some w \<Longrightarrow> Inventory_warehouse_id iv = Some (Warehouse_id w)"
  by (auto simp add: Inventory_warehouse_def find_Some_iff split: option.splits)

lemma find_exists: "x \<in> set xs \<Longrightarrow> P x \<Longrightarrow> find P xs \<noteq> None"
  by (auto simp add: find_None_iff)

text \<open>\<^verbatim>\<open>inv.warehouse\<close> is never \<^verbatim>\<open>None\<close> on a row the query of line 129 returns.\<close>

lemma Inventory_warehouse_of_query:
  assumes "iv \<in> set (Inventory_query_in d (map Warehouse_id (Company_warehouses d c)))"
  shows "Inventory_warehouse d iv \<noteq> None"
proof -
  from assms obtain k w where k: "Inventory_warehouse_id iv = Some k"
    and w: "w \<in> set (Company_warehouses d c)" "Warehouse_id w = k"
    by (auto simp add: Inventory_query_in_def split: option.splits)
  from w(1) have "w \<in> set (warehouses d)" by (simp add: Company_warehouses_def)
  with w(2) have "find (\<lambda>w. Warehouse_id w = k) (warehouses d) \<noteq> None"
    by (intro find_exists [of w]) simp_all
  with k show ?thesis by (simp add: Inventory_warehouse_def)
qed

lemma Inventory_query_in_subset:
  "set (Inventory_query_in d ids) \<subseteq> set (inventories d)"
  by (auto simp add: Inventory_query_in_def)

lemma map_of_setdefault_append:
  "map_of (setdefault_append m k v) =
     (map_of m)(k \<mapsto> (case map_of m k of None \<Rightarrow> [v] | Some vs \<Rightarrow> vs @ [v]))"
  by (induction m k v rule: setdefault_append.induct) auto

lemma keys_setdefault_append:
  "set (map fst (setdefault_append m k v)) = insert k (set (map fst m))"
  by (induction m k v rule: setdefault_append.induct) auto

lemma distinct_setdefault_append:
  "distinct (map fst m) \<Longrightarrow> distinct (map fst (setdefault_append m k v))"
proof (induction m k v rule: setdefault_append.induct)
  case (1 k v)
  then show ?case by simp
next
  case (2 k' vs m k v)
  show ?case
  proof (cases "k' = k")
    case True
    with 2 show ?thesis by simp
  next
    case False
    with 2 have "distinct (map fst (setdefault_append m k v))" by simp
    moreover have "k' \<notin> set (map fst (setdefault_append m k v))"
      using 2(2) False unfolding keys_setdefault_append by simp
    ultimately show ?thesis using False by simp
  qed
qed

lemma prod_inv_map_snoc:
  "prod_inv_map (invs @ [iv]) = setdefault_append (prod_inv_map invs) (Inventory_product_id iv) iv"
  by (simp add: prod_inv_map_def)

lemma distinct_prod_inv_map: "distinct (map fst (prod_inv_map invs))"
  by (induction invs rule: rev_induct)
    (simp_all add: prod_inv_map_Nil prod_inv_map_snoc distinct_setdefault_append)

lemma filter_key_empty: "k \<notin> f ` set xs \<Longrightarrow> filter (\<lambda>x. f x = k) xs = []"
  by (induction xs) auto

lemma map_of_prod_inv_map:
  "map_of (prod_inv_map invs) k =
     (if k \<in> Inventory_product_id ` set invs
      then Some (filter (\<lambda>iv. Inventory_product_id iv = k) invs) else None)"
proof (induction invs rule: rev_induct)
  case Nil
  then show ?case by (simp add: prod_inv_map_Nil)
next
  case (snoc iv invs)
  show ?case
  proof (cases "k = Inventory_product_id iv")
    case False
    then have "map_of (prod_inv_map (invs @ [iv])) k = map_of (prod_inv_map invs) k"
      by (simp add: prod_inv_map_snoc map_of_setdefault_append)
    with snoc False show ?thesis by auto
  next
    case True
    show ?thesis
    proof (cases "k \<in> Inventory_product_id ` set invs")
      case True
      with snoc \<open>k = Inventory_product_id iv\<close> show ?thesis
        by (simp add: prod_inv_map_snoc map_of_setdefault_append)
    next
      case False
      then have "filter (\<lambda>iv. Inventory_product_id iv = k) invs = []"
        by (rule filter_key_empty)
      with snoc False \<open>k = Inventory_product_id iv\<close> show ?thesis
        by (simp add: prod_inv_map_snoc map_of_setdefault_append)
    qed
  qed
qed

text \<open>The groups of the dictionary: one per product identifier, holding its rows in order.\<close>

lemma prod_inv_map_groups:
  "(k, ivs) \<in> set (prod_inv_map invs) \<longleftrightarrow>
     k \<in> Inventory_product_id ` set invs \<and> ivs = filter (\<lambda>iv. Inventory_product_id iv = k) invs"
proof -
  have "(k, ivs) \<in> set (prod_inv_map invs) \<longleftrightarrow> map_of (prod_inv_map invs) k = Some ivs"
    using distinct_prod_inv_map [of invs] by simp
  then show ?thesis by (auto simp add: map_of_prod_inv_map)
qed

section \<open>The two loops on well-formed data\<close>

lemma days_until_stockout_ok:
  assumes "int64 q" and "avg \<le> 0 \<or> 1 / 2 ^ 64 \<le> avg"
  shows "\<exists>days. days_until_stockout q avg = Inr days"
proof (cases "0 < avg")
  case False
  then show ?thesis by (simp add: days_until_stockout_def)
next
  case True
  with assms(2) have "1 / 2 ^ 64 \<le> avg" by auto
  with int64_abs [OF assms(1)] have "floor_int_div_float q avg =
      Inr \<lfloor>round_binary64 (round_binary64 (of_int q) / avg)\<rfloor>"
    by (rule floor_int_div_float_ok)
  with True show ?thesis by (simp add: days_until_stockout_def)
qed

text \<open>The alerts the inner loop appends: one per row below the threshold, in row order.\<close>

lemma inv_loop_result:
  assumes "\<forall>iv \<in> set ivs. (\<exists>q. Inventory_quantity iv = Some q \<and> int64 q)
      \<and> Inventory_warehouse d iv \<noteq> None"
    and "avg \<le> 0 \<or> 1 / 2 ^ 64 \<le> avg"
  shows "\<exists>new. inv_loop d p thr avg ivs acc = Inr (acc @ new)
    \<and> (\<forall>a. a \<in> set new \<longleftrightarrow>
          (\<exists>iv \<in> set ivs. \<exists>q w days.
              Inventory_quantity iv = Some q \<and> q < thr
              \<and> Inventory_warehouse d iv = Some w
              \<and> days_until_stockout q avg = Inr days
              \<and> a = make_alert d p w q thr days))"
  using assms(1)
proof (induction ivs arbitrary: acc)
  case Nil
  then show ?case by simp
next
  case (Cons iv rest)
  from Cons.prems obtain q w where q: "Inventory_quantity iv = Some q" "int64 q"
    and w: "Inventory_warehouse d iv = Some w" by auto
  from days_until_stockout_ok [OF q(2) assms(2)]
  obtain days where days: "days_until_stockout q avg = Inr days" by blast
  from Cons.prems have rest: "\<forall>iv \<in> set rest. (\<exists>q. Inventory_quantity iv = Some q \<and> int64 q)
      \<and> Inventory_warehouse d iv \<noteq> None" by simp
  show ?case
  proof (cases "q < thr")
    case True
    from Cons.IH [OF rest, of "acc @ [make_alert d p w q thr days]"]
    obtain new where new: "inv_loop d p thr avg rest (acc @ [make_alert d p w q thr days]) =
        Inr ((acc @ [make_alert d p w q thr days]) @ new)"
      and mem: "\<And>a. a \<in> set new \<longleftrightarrow>
          (\<exists>iv \<in> set rest. \<exists>q w days.
              Inventory_quantity iv = Some q \<and> q < thr
              \<and> Inventory_warehouse d iv = Some w
              \<and> days_until_stockout q avg = Inr days
              \<and> a = make_alert d p w q thr days)" by blast
    have "inv_loop d p thr avg (iv # rest) acc = Inr (acc @ (make_alert d p w q thr days # new))"
      using q w days True new by simp
    moreover have "\<forall>a. a \<in> set (make_alert d p w q thr days # new) \<longleftrightarrow>
          (\<exists>iv \<in> set (iv # rest). \<exists>q w days.
              Inventory_quantity iv = Some q \<and> q < thr
              \<and> Inventory_warehouse d iv = Some w
              \<and> days_until_stockout q avg = Inr days
              \<and> a = make_alert d p w q thr days)"
      using q w days True by (auto simp add: mem)
    ultimately show ?thesis by blast
  next
    case False
    from Cons.IH [OF rest, of acc]
    obtain new where new: "inv_loop d p thr avg rest acc = Inr (acc @ new)"
      and mem: "\<And>a. a \<in> set new \<longleftrightarrow>
          (\<exists>iv \<in> set rest. \<exists>q w days.
              Inventory_quantity iv = Some q \<and> q < thr
              \<and> Inventory_warehouse d iv = Some w
              \<and> days_until_stockout q avg = Inr days
              \<and> a = make_alert d p w q thr days)" by blast
    have "inv_loop d p thr avg (iv # rest) acc = Inr (acc @ new)"
      using q False new by simp
    moreover have "\<forall>a. a \<in> set new \<longleftrightarrow>
          (\<exists>iv \<in> set (iv # rest). \<exists>q w days.
              Inventory_quantity iv = Some q \<and> q < thr
              \<and> Inventory_warehouse d iv = Some w
              \<and> days_until_stockout q avg = Inr days
              \<and> a = make_alert d p w q thr days)"
      using q False by (auto simp add: mem)
    ultimately show ?thesis by blast
  qed
qed


lemma db_ok_sales:
  assumes "db_ok d"
  shows "\<forall>s \<in> set (Product_sales d p). Sale_created_at s \<noteq> None \<and> int64 (Sale_quantity s)"
    and "length (Product_sales d p) < 2 ^ 64"
proof -
  show "\<forall>s \<in> set (Product_sales d p). Sale_created_at s \<noteq> None \<and> int64 (Sale_quantity s)"
    using assms by (auto simp add: db_ok_def Product_sales_def)
  have "length (Product_sales d p) \<le> length (sales d)"
    by (simp add: Product_sales_def)
  also have "\<dots> < 2 ^ 64" using assms by (simp add: db_ok_def)
  finally show "length (Product_sales d p) < 2 ^ 64" .
qed

lemma product_sales_since:
  assumes "db_ok d"
  shows "sales_since (Product_sales d p) cutoff =
    Inr (filter (\<lambda>s. case Sale_created_at s of None \<Rightarrow> False | Some t \<Rightarrow> cutoff \<le> t)
           (Product_sales d p))"
  using db_ok_sales(1) [OF assms, of p] by (intro sales_since_ok) simp

lemma recent_sales_empty_iff:
  "filter (\<lambda>s. case Sale_created_at s of None \<Rightarrow> False | Some t \<Rightarrow> cutoff \<le> t)
     (Product_sales d p) = [] \<longleftrightarrow> \<not> recent_activity d p cutoff"
  by (auto simp add: filter_empty_conv recent_activity_def split: option.splits)

lemma product_avg_daily_sales:
  assumes "db_ok d"
  shows "avg_daily_sales
      (sum_list (map Sale_quantity
         (filter (\<lambda>s. case Sale_created_at s of None \<Rightarrow> False | Some t \<Rightarrow> cutoff \<le> t)
            (Product_sales d p)))) SALES_AVG_DAYS = Inr (product_avg d p cutoff)"
proof -
  have "\<bar>sum_list (map Sale_quantity
         (filter (\<lambda>s. case Sale_created_at s of None \<Rightarrow> False | Some t \<Rightarrow> cutoff \<le> t)
            (Product_sales d p)))\<bar> \<le> 2 ^ 127"
    using db_ok_sales [OF assms, of p] by (intro sold_quantity_bound) simp_all
  then show ?thesis
    by (simp add: avg_daily_sales_ok product_avg_def SALES_AVG_DAYS_def)
qed

lemma product_avg_range:
  assumes "db_ok d"
  shows "product_avg d p cutoff \<le> 0 \<or> 1 / 2 ^ 64 \<le> product_avg d p cutoff"
proof (cases "0 < product_avg d p cutoff")
  case False
  then show ?thesis by simp
next
  case True
  with product_avg_daily_sales [OF assms, of cutoff p]
  have "1 / 2 ^ 64 \<le> product_avg d p cutoff"
    by (rule avg_daily_sales_pos_lower) (simp add: SALES_AVG_DAYS_def)
  then show ?thesis by simp
qed

text \<open>One iteration of the outer loop on well-formed data.\<close>

lemma product_loop_step:
  assumes "db_ok d" and "Product_query_get d pid = Some p"
  shows "product_loop d lc ac ((pid, ivs) # rest) acc =
    (if recent_activity d p lc then
       (case inv_loop d p (get_threshold_for_product p) (product_avg d p ac) ivs acc of
          Inl e \<Rightarrow> Inl e
        | Inr acc' \<Rightarrow> product_loop d lc ac rest acc')
     else product_loop d lc ac rest acc)"
  using assms(2) recent_sales_empty_iff [of lc d p]
  by (simp add: product_sales_since [OF assms(1)] product_avg_daily_sales [OF assms(1)])


lemma db_ok_rows:
  assumes "db_ok d" and "iv \<in> set (inventories d)"
  shows "\<exists>q. Inventory_quantity iv = Some q \<and> int64 q"
    and "Product_query_get d (Inventory_product_id iv) \<noteq> None"
  using assms by (auto simp add: db_ok_def split: option.splits)

text \<open>The alerts the outer loop appends, group by group.\<close>

lemma product_loop_result:
  assumes "db_ok d"
    and "\<forall>(pid, ivs) \<in> set g. ivs \<noteq> [] \<and> (\<forall>iv \<in> set ivs. iv \<in> set (inventories d)
        \<and> Inventory_product_id iv = pid \<and> Inventory_warehouse d iv \<noteq> None)"
  shows "\<exists>new. product_loop d lc ac g acc = Inr (acc @ new)
    \<and> (\<forall>a. a \<in> set new \<longleftrightarrow>
          (\<exists>(pid, ivs) \<in> set g. \<exists>p. Product_query_get d pid = Some p
              \<and> recent_activity d p lc
              \<and> (\<exists>iv \<in> set ivs. \<exists>q w days.
                    Inventory_quantity iv = Some q \<and> q < get_threshold_for_product p
                    \<and> Inventory_warehouse d iv = Some w
                    \<and> days_until_stockout q (product_avg d p ac) = Inr days
                    \<and> a = make_alert d p w q (get_threshold_for_product p) days)))"
  using assms(2)
proof (induction g arbitrary: acc)
  case Nil
  then show ?case by simp
next
  case (Cons x rest)
  obtain pid ivs where x: "x = (pid, ivs)" by (cases x)
  let ?A = "\<lambda>p ivs a. \<exists>iv \<in> set ivs. \<exists>q w days.
      Inventory_quantity iv = Some q \<and> q < get_threshold_for_product p
      \<and> Inventory_warehouse d iv = Some w
      \<and> days_until_stockout q (product_avg d p ac) = Inr days
      \<and> a = make_alert d p w q (get_threshold_for_product p) days"
  from Cons.prems x have ne: "ivs \<noteq> []"
    and rows: "\<forall>iv \<in> set ivs. iv \<in> set (inventories d)
        \<and> Inventory_product_id iv = pid \<and> Inventory_warehouse d iv \<noteq> None" by auto
  from Cons.prems have rest: "\<forall>(pid, ivs) \<in> set rest. ivs \<noteq> []
      \<and> (\<forall>iv \<in> set ivs. iv \<in> set (inventories d)
        \<and> Inventory_product_id iv = pid \<and> Inventory_warehouse d iv \<noteq> None)" by simp
  from ne obtain iv0 where "iv0 \<in> set ivs" by (cases ivs) auto
  with rows db_ok_rows(2) [OF assms(1), of iv0]
  obtain p where p: "Product_query_get d pid = Some p" by auto
  note step = product_loop_step [OF assms(1) p, of lc ac ivs rest acc]
  show ?case
  proof (cases "recent_activity d p lc")
    case False
    from Cons.IH [OF rest, of acc]
    obtain new where new: "product_loop d lc ac rest acc = Inr (acc @ new)"
      and mem: "\<And>a. a \<in> set new \<longleftrightarrow>
          (\<exists>(pid, ivs) \<in> set rest. \<exists>p. Product_query_get d pid = Some p
              \<and> recent_activity d p lc \<and> ?A p ivs a)" by blast
    have "product_loop d lc ac (x # rest) acc = Inr (acc @ new)"
      using step False new x by simp
    moreover have "\<forall>a. a \<in> set new \<longleftrightarrow>
          (\<exists>(pid, ivs) \<in> set (x # rest). \<exists>p. Product_query_get d pid = Some p
              \<and> recent_activity d p lc \<and> ?A p ivs a)"
      using False p x by (simp add: mem)
    ultimately show ?thesis by blast
  next
    case True
    have "\<forall>iv \<in> set ivs. (\<exists>q. Inventory_quantity iv = Some q \<and> int64 q)
        \<and> Inventory_warehouse d iv \<noteq> None"
      using rows db_ok_rows(1) [OF assms(1)] by blast
    from inv_loop_result [OF this product_avg_range [OF assms(1), of p ac],
        where p = p and thr = "get_threshold_for_product p" and acc = acc]
    obtain new1 where new1: "inv_loop d p (get_threshold_for_product p) (product_avg d p ac)
          ivs acc = Inr (acc @ new1)"
      and mem1: "\<And>a. a \<in> set new1 \<longleftrightarrow> ?A p ivs a" by blast
    from Cons.IH [OF rest, of "acc @ new1"]
    obtain new2 where new2: "product_loop d lc ac rest (acc @ new1) = Inr ((acc @ new1) @ new2)"
      and mem2: "\<And>a. a \<in> set new2 \<longleftrightarrow>
          (\<exists>(pid, ivs) \<in> set rest. \<exists>p. Product_query_get d pid = Some p
              \<and> recent_activity d p lc \<and> ?A p ivs a)" by blast
    have "product_loop d lc ac (x # rest) acc = Inr (acc @ (new1 @ new2))"
      using step True new1 new2 x by simp
    moreover have "\<forall>a. a \<in> set (new1 @ new2) \<longleftrightarrow>
          (\<exists>(pid, ivs) \<in> set (x # rest). \<exists>p. Product_query_get d pid = Some p
              \<and> recent_activity d p lc \<and> ?A p ivs a)"
      using True p x by (simp add: mem1 mem2)
    ultimately show ?thesis by blast
  qed
qed

section \<open>The response on well-formed data\<close>

lemma make_alert_fields:
  "alert_product_id (make_alert d p w q thr days) = Product_id p"
  "alert_warehouse_id (make_alert d p w q thr days) = Warehouse_id w"
  "alert_current_stock (make_alert d p w q thr days) = q"
  "alert_threshold (make_alert d p w q thr days) = thr"
  "alert_days_until_stockout (make_alert d p w q thr days) = days"
  by (simp_all add: make_alert_def)

text \<open>The response on well-formed data: one alert per qualifying row of the company.\<close>

lemma low_stock_alerts_result:
  assumes "db_ok d" and "Company_query_get d company_id = Inr (Some c)"
  shows "\<exists>alerts. low_stock_alerts d company_id now = Inr (AlertsBody alerts (length alerts), 200)
    \<and> (\<forall>a. a \<in> set alerts \<longleftrightarrow>
          (\<exists>iv \<in> set (Inventory_query_in d (map Warehouse_id (Company_warehouses d c))).
             \<exists>p q w days.
               Product_query_get d (Inventory_product_id iv) = Some p
               \<and> recent_activity d p (now - timedelta_days SALES_LOOKBACK_DAYS)
               \<and> Inventory_quantity iv = Some q \<and> q < get_threshold_for_product p
               \<and> Inventory_warehouse d iv = Some w
               \<and> days_until_stockout q
                    (product_avg d p (now - timedelta_days SALES_AVG_DAYS)) = Inr days
               \<and> a = make_alert d p w q (get_threshold_for_product p) days))"
proof -
  define invs where "invs = Inventory_query_in d (map Warehouse_id (Company_warehouses d c))"
  define lc where "lc = now - timedelta_days SALES_LOOKBACK_DAYS"
  define ac where "ac = now - timedelta_days SALES_AVG_DAYS"
  have groups: "\<forall>(pid, ivs) \<in> set (prod_inv_map invs). ivs \<noteq> []
      \<and> (\<forall>iv \<in> set ivs. iv \<in> set (inventories d)
        \<and> Inventory_product_id iv = pid \<and> Inventory_warehouse d iv \<noteq> None)"
  proof (intro ballI, clarify, intro conjI ballI)
    fix pid ivs
    assume g: "(pid, ivs) \<in> set (prod_inv_map invs)"
    then have pid: "pid \<in> Inventory_product_id ` set invs"
      and ivs: "ivs = filter (\<lambda>iv. Inventory_product_id iv = pid) invs"
      by (simp_all add: prod_inv_map_groups)
    from pid show "ivs \<noteq> []" unfolding ivs by (auto simp add: filter_empty_conv)
    fix iv
    assume "iv \<in> set ivs"
    then have iv: "iv \<in> set invs" "Inventory_product_id iv = pid" unfolding ivs by simp_all
    from iv(1) show "iv \<in> set (inventories d)"
      unfolding invs_def using Inventory_query_in_subset by blast
    from iv(2) show "Inventory_product_id iv = pid" .
    from iv(1) show "Inventory_warehouse d iv \<noteq> None"
      unfolding invs_def by (rule Inventory_warehouse_of_query)
  qed
  from product_loop_result [OF assms(1) groups, of lc ac "[]"]
  obtain alerts where run: "product_loop d lc ac (prod_inv_map invs) [] = Inr alerts"
    and mem: "\<And>a. a \<in> set alerts \<longleftrightarrow>
          (\<exists>(pid, ivs) \<in> set (prod_inv_map invs). \<exists>p. Product_query_get d pid = Some p
              \<and> recent_activity d p lc
              \<and> (\<exists>iv \<in> set ivs. \<exists>q w days.
                    Inventory_quantity iv = Some q \<and> q < get_threshold_for_product p
                    \<and> Inventory_warehouse d iv = Some w
                    \<and> days_until_stockout q (product_avg d p ac) = Inr days
                    \<and> a = make_alert d p w q (get_threshold_for_product p) days))"
    by auto
  have "low_stock_alerts d company_id now = Inr (AlertsBody alerts (length alerts), 200)"
    using assms(2) run by (simp add: low_stock_alerts_def invs_def lc_def ac_def)
  moreover have "\<forall>a. a \<in> set alerts \<longleftrightarrow>
          (\<exists>iv \<in> set invs. \<exists>p q w days.
               Product_query_get d (Inventory_product_id iv) = Some p
               \<and> recent_activity d p lc
               \<and> Inventory_quantity iv = Some q \<and> q < get_threshold_for_product p
               \<and> Inventory_warehouse d iv = Some w
               \<and> days_until_stockout q (product_avg d p ac) = Inr days
               \<and> a = make_alert d p w q (get_threshold_for_product p) days)"
  proof (intro allI iffI)
    fix a
    assume "a \<in> set alerts"
    then obtain pid ivs p iv q w days where "(pid, ivs) \<in> set (prod_inv_map invs)"
      "Product_query_get d pid = Some p" "recent_activity d p lc" "iv \<in> set ivs"
      "Inventory_quantity iv = Some q" "q < get_threshold_for_product p"
      "Inventory_warehouse d iv = Some w"
      "days_until_stockout q (product_avg d p ac) = Inr days"
      "a = make_alert d p w q (get_threshold_for_product p) days"
      unfolding mem by blast
    moreover from this(1,4) have "iv \<in> set invs" "Inventory_product_id iv = pid"
      by (simp_all add: prod_inv_map_groups)
    ultimately show "\<exists>iv \<in> set invs. \<exists>p q w days.
               Product_query_get d (Inventory_product_id iv) = Some p
               \<and> recent_activity d p lc
               \<and> Inventory_quantity iv = Some q \<and> q < get_threshold_for_product p
               \<and> Inventory_warehouse d iv = Some w
               \<and> days_until_stockout q (product_avg d p ac) = Inr days
               \<and> a = make_alert d p w q (get_threshold_for_product p) days"
      by blast
  next
    fix a
    assume "\<exists>iv \<in> set invs. \<exists>p q w days.
               Product_query_get d (Inventory_product_id iv) = Some p
               \<and> recent_activity d p lc
               \<and> Inventory_quantity iv = Some q \<and> q < get_threshold_for_product p
               \<and> Inventory_warehouse d iv = Some w
               \<and> days_until_stockout q (product_avg d p ac) = Inr days
               \<and> a = make_alert d p w q (get_threshold_for_product p) days"
    then obtain iv p q w days where iv: "iv \<in> set invs"
      and r: "Product_query_get d (Inventory_product_id iv) = Some p" "recent_activity d p lc"
      "Inventory_quantity iv = Some q" "q < get_threshold_for_product p"
      "Inventory_warehouse d iv = Some w"
      "days_until_stockout q (product_avg d p ac) = Inr days"
      "a = make_alert d p w q (get_threshold_for_product p) days"
      by blast
    let ?ivs = "filter (\<lambda>x. Inventory_product_id x = Inventory_product_id iv) invs"
    have "(Inventory_product_id iv, ?ivs) \<in> set (prod_inv_map invs)"
      using iv by (simp add: prod_inv_map_groups)
    moreover have "iv \<in> set ?ivs" using iv by simp
    ultimately show "a \<in> set alerts"
      unfolding mem using r by blast
  qed
  ultimately show ?thesis unfolding invs_def lc_def ac_def by blast
qed


lemma db_ok_seed_db: "db_ok seed_db"
  by (simp add: db_ok_def seed_db_def int64_def Product_query_get_def)

lemma Company_query_get_seed_db:
  "Company_query_get seed_db 1 = Inr (Some \<lparr>Company_id = 1, Company_name = ''Acme Corp''\<rparr>)"
  by (simp add: Company_query_get_def int64_def seed_db_def)

section \<open>Evaluated constants\<close>

lemma days_until_stockout_5:
  "days_until_stockout 5 (6004799503160661 / 18014398509481984) = Inr (Some 15)"
  by code_simp

text \<open>
  The quotient is the binary64 one, not the exact one: with 23 units in stock and 23 sold
  in the window the exact quotient is 30, the rounded rate is slightly above 23/30, and the
  estimate is 29.
\<close>

lemma days_until_stockout_rounds:
  "avg_daily_sales 23 SALES_AVG_DAYS = Inr (round_binary64 (23 / 30))
   \<and> days_until_stockout 23 (round_binary64 (23 / 30)) = Inr (Some 29)"
  by code_simp

lemma threshold_normal: "threshold_for_type (Some ''normal'') = 20"
  by (simp add: threshold_for_type_def THRESHOLDS_BY_TYPE_def)

section \<open>The alert of one row\<close>

lemma recent_activityI:
  "s \<in> set (Product_sales d p) \<Longrightarrow> Sale_created_at s = Some t \<Longrightarrow> cutoff \<le> t \<Longrightarrow>
   recent_activity d p cutoff"
  by (auto simp add: recent_activity_def)

lemma low_stock_alerts_row:
  assumes "db_ok d" and "Company_query_get d company_id = Inr (Some c)"
    and "iv \<in> set (Inventory_query_in d (map Warehouse_id (Company_warehouses d c)))"
    and "Product_query_get d (Inventory_product_id iv) = Some p"
    and "Inventory_quantity iv = Some q" and "q < get_threshold_for_product p"
    and "Inventory_warehouse d iv = Some w"
    and "recent_activity d p (now - timedelta_days SALES_LOOKBACK_DAYS)"
    and "days_until_stockout q (product_avg d p (now - timedelta_days SALES_AVG_DAYS)) = Inr days"
  shows "\<exists>alerts. low_stock_alerts d company_id now = Inr (AlertsBody alerts (length alerts), 200)
    \<and> make_alert d p w q (get_threshold_for_product p) days \<in> set alerts"
proof -
  from low_stock_alerts_result [OF assms(1,2), of now]
  obtain alerts where res: "low_stock_alerts d company_id now =
      Inr (AlertsBody alerts (length alerts), 200)"
    and mem: "\<And>a. a \<in> set alerts \<longleftrightarrow>
          (\<exists>iv \<in> set (Inventory_query_in d (map Warehouse_id (Company_warehouses d c))).
             \<exists>p q w days.
               Product_query_get d (Inventory_product_id iv) = Some p
               \<and> recent_activity d p (now - timedelta_days SALES_LOOKBACK_DAYS)
               \<and> Inventory_quantity iv = Some q \<and> q < get_threshold_for_product p
               \<and> Inventory_warehouse d iv = Some w
               \<and> days_until_stockout q
                    (product_avg d p (now - timedelta_days SALES_AVG_DAYS)) = Inr days
               \<and> a = make_alert d p w q (get_threshold_for_product p) days)"
    by blast
  have "make_alert d p w q (get_threshold_for_product p) days \<in> set alerts"
    unfolding mem using assms(3-9) by blast
  with res show ?thesis by blast
qed

lemma db_ok_scenario_db: "db_ok scenario_db"
  by (simp add: db_ok_def scenario_db_def int64_def Product_query_get_def)

lemma scenario_db_rows:
  "Company_query_get scenario_db 1 = Inr (Some \<lparr>Company_id = 1, Company_name = ''Acme Corp''\<rparr>)"
  "\<lparr>Inventory_id = 1, Inventory_product_id = Some 1, Inventory_warehouse_id = Some 1,
     Inventory_quantity = Some 5\<rparr>
   \<in> set (Inventory_query_in scenario_db (map Warehouse_id
        (Company_warehouses scenario_db \<lparr>Company_id = 1, Company_name = ''Acme Corp''\<rparr>)))"
  "Product_query_get scenario_db (Some 1) =
     Some \<lparr>Product_id = 1, Product_name = ''Widget A'', Product_sku = ''WID-001'',
       Product_product_type = Some ''normal'', Product_supplier_id = None\<rparr>"
  "Inventory_warehouse scenario_db
     \<lparr>Inventory_id = 1, Inventory_product_id = Some 1, Inventory_warehouse_id = Some 1,
       Inventory_quantity = Some 5\<rparr> =
     Some \<lparr>Warehouse_id = 1, Warehouse_name = ''W1'', Warehouse_company_id = Some 1\<rparr>"
  "Product_sales scenario_db
     \<lparr>Product_id = 1, Product_name = ''Widget A'', Product_sku = ''WID-001'',
       Product_product_type = Some ''normal'', Product_supplier_id = None\<rparr> =
     [\<lparr>Sale_id = 1, Sale_product_id = Some 1, Sale_quantity = 10,
       Sale_created_at = Some (timedelta_days 395)\<rparr>]"
  by (simp_all add: Company_query_get_def int64_def Inventory_query_in_def Company_warehouses_def
      Product_query_get_def Inventory_warehouse_def Product_sales_def scenario_db_def)

section \<open>A positive average\<close>

lemma round_binary64_pos:
  assumes "1 \<le> n"
  shows "0 < round_binary64 (rat_of_int n / of_int SALES_AVG_DAYS)"
proof -
  have n: "1 \<le> rat_of_int n" using assms by simp
  have "(1::rat) / 30 \<le> rat_of_int n / 30"
    using n by (rule divide_right_mono) simp
  moreover have "(2::rat) powi (- 1022) \<le> 1 / 30"
  proof -
    have "(2::rat) powi (- 1022) \<le> 2 powi (- 5)"
      by (rule power_int_increasing) simp_all
    also have "\<dots> \<le> 1 / 30" by (simp add: power_int_minus_divide)
    finally show ?thesis .
  qed
  ultimately have "2 powi (- 1022) \<le> rat_of_int n / 30" by linarith
  then have "rat_of_int n / 30 / 2 \<le> round_binary64 (rat_of_int n / 30)"
    by (rule round_binary64_lower)
  moreover have "0 < rat_of_int n / 30 / 2" using n by simp
  ultimately show ?thesis by (simp add: SALES_AVG_DAYS_def)
qed

section \<open>Reading the rows in another order\<close>

lemma find_key_Some_iff:
  "distinct (map key xs) \<Longrightarrow> find (\<lambda>x. key x = k) xs = Some x \<longleftrightarrow> x \<in> set xs \<and> key x = k"
proof (induction xs)
  case Nil
  then show ?case by simp
next
  case (Cons y ys)
  then show ?case by (auto simp add: image_iff)
qed

lemma find_key_mset:
  assumes "mset xs = mset ys" and "distinct (map key xs)"
  shows "find (\<lambda>x. key x = k) xs = find (\<lambda>x. key x = k) ys"
proof -
  have "mset (map key xs) = mset (map key ys)" using assms(1) by simp
  with assms(2) have dy: "distinct (map key ys)" by (metis mset_eq_imp_distinct_iff)
  have st: "set xs = set ys" using assms(1) by (rule mset_eq_setD)
  show ?thesis
  proof (cases "find (\<lambda>x. key x = k) xs")
    case None
    then have "find (\<lambda>x. key x = k) ys = None"
      unfolding find_None_iff st .
    with None show ?thesis by simp
  next
    case (Some x)
    then have "x \<in> set ys \<and> key x = k"
      using find_key_Some_iff [OF assms(2), of k x] st by simp
    then have "find (\<lambda>x. key x = k) ys = Some x"
      using find_key_Some_iff [OF dy, of k x] by simp
    with Some show ?thesis by simp
  qed
qed

lemma sales_since_TypeError:
  "s \<in> set ss \<Longrightarrow> Sale_created_at s = None \<Longrightarrow> sales_since ss since = Inl TypeError"
proof (induction ss)
  case Nil
  then show ?case by simp
next
  case (Cons x xs)
  show ?case
  proof (cases "Sale_created_at x")
    case None
    then show ?thesis by simp
  next
    case (Some t)
    with Cons have "s \<in> set xs" by auto
    with Cons have "sales_since xs since = Inl TypeError" by simp
    with Some show ?thesis by simp
  qed
qed

lemma sales_since_mset:
  assumes "mset xs = mset ys"
  shows "(sales_since xs since = Inl TypeError \<and> sales_since ys since = Inl TypeError)
    \<or> (\<exists>r1 r2. sales_since xs since = Inr r1 \<and> sales_since ys since = Inr r2
          \<and> mset r1 = mset r2)"
proof -
  have st: "set xs = set ys" using assms by (rule mset_eq_setD)
  show ?thesis
  proof (cases "\<exists>s \<in> set xs. Sale_created_at s = None")
    case True
    then obtain s where "s \<in> set xs" "s \<in> set ys" "Sale_created_at s = None"
      using st by auto
    then show ?thesis by (simp add: sales_since_TypeError)
  next
    case False
    then have "\<forall>s \<in> set xs. Sale_created_at s \<noteq> None" "\<forall>s \<in> set ys. Sale_created_at s \<noteq> None"
      using st by simp_all
    then show ?thesis using assms by (simp add: sales_since_ok)
  qed
qed


lemma sum_list_mset_cong:
  "mset xs = mset ys \<Longrightarrow> sum_list (map f xs) = (sum_list (map f ys) :: int)"
proof -
  assume "mset xs = mset ys"
  then have "mset (map f xs) = mset (map f ys)" by simp
  then have "sum_mset (mset (map f xs)) = sum_mset (mset (map f ys))" by simp
  then show ?thesis by (simp only: sum_mset_sum_list)
qed

lemma same_rows_Company_query_get:
  assumes "same_rows d1 d2" and "unique_keys d1"
  shows "Company_query_get d1 cid = Company_query_get d2 cid"
  using find_key_mset [of "companies d1" "companies d2" Company_id cid] assms
  by (simp add: Company_query_get_def same_rows_def unique_keys_def)

lemma same_rows_Product_query_get:
  assumes "same_rows d1 d2" and "unique_keys d1"
  shows "Product_query_get d1 pid = Product_query_get d2 pid"
proof (cases pid)
  case None
  then show ?thesis by (simp add: Product_query_get_def)
next
  case (Some k)
  with find_key_mset [of "products d1" "products d2" Product_id k] assms
  show ?thesis by (simp add: Product_query_get_def same_rows_def unique_keys_def)
qed

lemma same_rows_Inventory_warehouse:
  assumes "same_rows d1 d2" and "unique_keys d1"
  shows "Inventory_warehouse d1 iv = Inventory_warehouse d2 iv"
proof (cases "Inventory_warehouse_id iv")
  case None
  then show ?thesis by (simp add: Inventory_warehouse_def)
next
  case (Some k)
  with find_key_mset [of "warehouses d1" "warehouses d2" Warehouse_id k] assms
  show ?thesis by (simp add: Inventory_warehouse_def same_rows_def unique_keys_def)
qed

lemma same_rows_supplier_info:
  assumes "same_rows d1 d2" and "unique_keys d1"
  shows "supplier_info d1 p = supplier_info d2 p"
proof (cases "Product_supplier_id p")
  case None
  then show ?thesis by (simp add: supplier_info_def Product_supplier_def)
next
  case (Some k)
  with find_key_mset [of "suppliers d1" "suppliers d2" Supplier_id k] assms
  show ?thesis
    by (simp add: supplier_info_def Product_supplier_def same_rows_def unique_keys_def)
qed

lemma same_rows_make_alert:
  assumes "same_rows d1 d2" and "unique_keys d1"
  shows "make_alert d1 p w q thr days = make_alert d2 p w q thr days"
  by (simp add: make_alert_def same_rows_supplier_info [OF assms])

lemma same_rows_inv_loop:
  assumes "same_rows d1 d2" and "unique_keys d1"
  shows "inv_loop d1 p thr avg ivs acc = inv_loop d2 p thr avg ivs acc"
  by (induction ivs arbitrary: acc)
    (simp_all add: same_rows_Inventory_warehouse [OF assms] same_rows_make_alert [OF assms]
      split: option.splits sum.splits)

lemma same_rows_Product_sales:
  assumes "same_rows d1 d2"
  shows "mset (Product_sales d1 p) = mset (Product_sales d2 p)"
  using assms by (simp add: Product_sales_def same_rows_def mset_filter)

lemma same_rows_warehouse_ids:
  assumes "same_rows d1 d2"
  shows "set (map Warehouse_id (Company_warehouses d1 c)) =
    set (map Warehouse_id (Company_warehouses d2 c))"
proof -
  have "set (warehouses d1) = set (warehouses d2)"
    using assms by (auto simp add: same_rows_def dest: mset_eq_setD)
  then show ?thesis by (simp add: Company_warehouses_def)
qed

lemma same_rows_Inventory_query_in:
  assumes "same_rows d1 d2" and "set ids1 = set ids2"
  shows "Inventory_query_in d1 ids1 = Inventory_query_in d2 ids2"
proof -
  have "inventories d1 = inventories d2" using assms(1) by (simp add: same_rows_def)
  then show ?thesis unfolding Inventory_query_in_def assms(2) by simp
qed


lemma same_rows_product_loop:
  assumes "same_rows d1 d2" and "unique_keys d1"
  shows "product_loop d1 lc ac g acc = product_loop d2 lc ac g acc"
proof (induction g arbitrary: acc)
  case Nil
  show ?case by simp
next
  case (Cons x rest)
  obtain pid ivs where x: "x = (pid, ivs)" by (cases x)
  note pq = same_rows_Product_query_get [OF assms, of pid]
  show ?case
  proof (cases "Product_query_get d1 pid")
    case None
    with pq x show ?thesis by simp
  next
    case (Some p)
    with pq have p2: "Product_query_get d2 pid = Some p" by simp
    note ms = same_rows_Product_sales [OF assms(1), of p]
    from sales_since_mset [OF ms, of lc]
    show ?thesis
    proof (elim disjE conjE exE)
      assume "sales_since (Product_sales d1 p) lc = Inl TypeError"
        "sales_since (Product_sales d2 p) lc = Inl TypeError"
      with Some p2 x show ?thesis by simp
    next
      fix r1 r2
      assume r: "sales_since (Product_sales d1 p) lc = Inr r1"
        "sales_since (Product_sales d2 p) lc = Inr r2" "mset r1 = mset r2"
      from r(3) have e: "r1 = [] \<longleftrightarrow> r2 = []" by (metis mset_zero_iff)
      show ?thesis
      proof (cases "r1 = []")
        case True
        with e r Some p2 x Cons.IH [of acc] show ?thesis by simp
      next
        case False
        with e have ne: "r1 \<noteq> []" "r2 \<noteq> []" by simp_all
        from sales_since_mset [OF ms, of ac]
        show ?thesis
        proof (elim disjE conjE exE)
          assume "sales_since (Product_sales d1 p) ac = Inl TypeError"
            "sales_since (Product_sales d2 p) ac = Inl TypeError"
          with r ne Some p2 x show ?thesis by simp
        next
          fix a1 a2
          assume a: "sales_since (Product_sales d1 p) ac = Inr a1"
            "sales_since (Product_sales d2 p) ac = Inr a2" "mset a1 = mset a2"
          from a(3) have sm: "sum_list (map Sale_quantity a1) = sum_list (map Sale_quantity a2)"
            by (rule sum_list_mset_cong)
          show ?thesis
            using r(1,2) ne a(1,2) Some p2 x sm
            by (simp add: same_rows_inv_loop [OF assms] Cons.IH split: sum.splits)
        qed
      qed
    qed
  qed
qed

section \<open>Missing company\<close>

text \<open>An identifier the driver cannot bind: the exception leaves the endpoint uncaught.\<close>

lemma low_stock_alerts_out_of_range:
  "\<not> int64 company_id \<Longrightarrow> low_stock_alerts d company_id now = Inl OverflowError"
  by (simp add: low_stock_alerts_def Company_query_get_def)




section \<open>Thresholds\<close>

text \<open>
  C5. The threshold lookup is total: the three configured labels map to their positive
  thresholds 50, 20 and 5, and every other label, the empty string and \<^verbatim>\<open>None\<close> included,
  maps to the single default 10, which differs from every configured threshold.
\<close>

theorem threshold_for_type_total:
  "threshold_for_type (Some ''fast-moving'') = 50
   \<and> threshold_for_type (Some ''normal'') = 20
   \<and> threshold_for_type (Some ''slow-moving'') = 5
   \<and> (\<forall>(k, v) \<in> set THRESHOLDS_BY_TYPE. threshold_for_type (Some k) = v \<and> 0 < v \<and> v \<noteq> 10)
   \<and> (\<forall>t. t \<notin> Some ` fst ` set THRESHOLDS_BY_TYPE \<longrightarrow> threshold_for_type t = 10)
   \<and> threshold_for_type (Some []) = 10
   \<and> threshold_for_type None = 10
   \<and> get_threshold_for_product p = threshold_for_type (Product_product_type p)"
  by (auto simp add: threshold_for_type_def THRESHOLDS_BY_TYPE_def get_threshold_for_product_def
      split: option.splits)

theorem threshold_for_type_total_witness:
  "Some ''seasonal'' \<notin> Some ` fst ` set THRESHOLDS_BY_TYPE
   \<and> threshold_for_type (Some ''seasonal'') = 10
   \<and> (''normal'', 20) \<in> set THRESHOLDS_BY_TYPE
   \<and> threshold_for_type (Some ''normal'') = 20"
proof -
  have h: "Some ''seasonal'' \<notin> Some ` fst ` set THRESHOLDS_BY_TYPE"
    by (simp add: THRESHOLDS_BY_TYPE_def)
  have m: "(''normal'', 20) \<in> set THRESHOLDS_BY_TYPE"
    by (simp add: THRESHOLDS_BY_TYPE_def)
  from threshold_for_type_total [of "hd (products seed_db)"]
  have "threshold_for_type (Some ''seasonal'') = 10" and "threshold_for_type (Some ''normal'') = 20"
    using h by blast+
  with h m show ?thesis by simp
qed

section \<open>Companies without stock\<close>

text \<open>
  C9. A company that exists and owns no warehouses, or whose warehouses hold no inventory
  rows, gets status 200 with an empty alert list and \<^verbatim>\<open>total_alerts\<close> 0, and no exception
  is raised. In every alert response the total is the length of the alert list.
\<close>

theorem low_stock_alerts_no_stock:
  "(Company_query_get d company_id = Inr (Some c)
      \<and> (Company_warehouses d c = []
          \<or> Inventory_query_in d (map Warehouse_id (Company_warehouses d c)) = [])
      \<longrightarrow> low_stock_alerts d company_id now = Inr (AlertsBody [] 0, 200))
   \<and> (\<forall>alerts n st. low_stock_alerts d company_id now = Inr (AlertsBody alerts n, st)
          \<longrightarrow> n = length alerts \<and> st = 200)"
proof (intro conjI impI allI)
  assume a: "Company_query_get d company_id = Inr (Some c)
      \<and> (Company_warehouses d c = []
          \<or> Inventory_query_in d (map Warehouse_id (Company_warehouses d c)) = [])"
  then have "Inventory_query_in d (map Warehouse_id (Company_warehouses d c)) = []"
    by (auto simp add: Inventory_query_in_Nil)
  with a show "low_stock_alerts d company_id now = Inr (AlertsBody [] 0, 200)"
    by (simp add: low_stock_alerts_def prod_inv_map_Nil)
next
  fix alerts n st
  assume "low_stock_alerts d company_id now = Inr (AlertsBody alerts n, st)"
  then show "n = length alerts" "st = 200"
    by (auto simp add: low_stock_alerts_def Let_def split: option.splits sum.splits)
qed

theorem low_stock_alerts_no_stock_witness:
  "Company_query_get empty_db 3 = Inr (Some \<lparr>Company_id = 3, Company_name = ''Newco''\<rparr>)
   \<and> Company_warehouses empty_db \<lparr>Company_id = 3, Company_name = ''Newco''\<rparr> = []
   \<and> low_stock_alerts empty_db 3 seed_now = Inr (AlertsBody [] 0, 200)
   \<and> (0::nat) = length ([] :: alert list)"
proof -
  have h: "Company_query_get empty_db 3 = Inr (Some \<lparr>Company_id = 3, Company_name = ''Newco''\<rparr>)"
    by (simp add: Company_query_get_def int64_def empty_db_def)
  have w: "Company_warehouses empty_db \<lparr>Company_id = 3, Company_name = ''Newco''\<rparr> = []"
    by (simp add: Company_warehouses_def empty_db_def)
  from low_stock_alerts_no_stock
    [of empty_db 3 "\<lparr>Company_id = 3, Company_name = ''Newco''\<rparr>" seed_now] h w
  have "low_stock_alerts empty_db 3 seed_now = Inr (AlertsBody [] 0, 200)" by blast
  with h w show ?thesis by simp
qed

section \<open>Determinism\<close>

text \<open>
  C6. Two invocations on unchanged data with the same company identifier and the same \<open>now\<close>
  return the same response: the same alert records in the same order and the same total.
  The invocations may even receive the rows of the company, warehouse, supplier, product and
  sale tables in different orders; only the order of the inventory rows, which the order of
  the alerts follows, has to be the same. \<open>now\<close> is the value read from the clock at line
  120.
\<close>

theorem low_stock_alerts_deterministic:
  assumes "same_rows d1 d2" and "unique_keys d1"
  shows "low_stock_alerts d1 company_id now = low_stock_alerts d2 company_id now
    \<and> (\<forall>alerts1 n1 alerts2 n2.
          low_stock_alerts d1 company_id now = Inr (AlertsBody alerts1 n1, 200)
          \<and> low_stock_alerts d2 company_id now = Inr (AlertsBody alerts2 n2, 200)
          \<longrightarrow> alerts1 = alerts2 \<and> n1 = n2)"
proof -
  have "low_stock_alerts d1 company_id now = low_stock_alerts d2 company_id now"
  proof -
    note cq = same_rows_Company_query_get [OF assms, of company_id]
    show ?thesis
    proof (cases "Company_query_get d1 company_id")
      case (Inl e)
      moreover from Inl cq have "Company_query_get d2 company_id = Inl e" by simp
      ultimately show ?thesis by (simp add: low_stock_alerts_def)
    next
      case (Inr co)
      from Inr cq have c2: "Company_query_get d2 company_id = Inr co" by simp
      show ?thesis
      proof (cases co)
        case None
        with Inr c2 show ?thesis by (simp add: low_stock_alerts_def)
      next
        case (Some c)
        have "Inventory_query_in d1 (map Warehouse_id (Company_warehouses d1 c)) =
            Inventory_query_in d2 (map Warehouse_id (Company_warehouses d2 c))"
          using assms(1) same_rows_warehouse_ids [OF assms(1)]
          by (rule same_rows_Inventory_query_in)
        with Some Inr c2 show ?thesis
          by (simp add: low_stock_alerts_def same_rows_product_loop [OF assms])
      qed
    qed
  qed
  then show ?thesis by auto
qed

theorem low_stock_alerts_deterministic_witness:
  "low_stock_alerts seed_db 1 seed_now = low_stock_alerts seed_db_reordered 1 seed_now
   \<and> sales seed_db_reordered \<noteq> sales seed_db"
proof -
  have h1: "same_rows seed_db seed_db_reordered"
    by (simp add: same_rows_def seed_db_reordered_def)
  have h2: "unique_keys seed_db"
    by (simp add: unique_keys_def seed_db_def)
  have "sales seed_db_reordered \<noteq> sales seed_db"
    by (simp add: seed_db_reordered_def seed_db_def)
  with low_stock_alerts_deterministic [OF h1 h2, of 1 seed_now]
  show ?thesis by simp
qed

section \<open>Days until stockout\<close>

lemma days_until_stockout_None_iff: "days_until_stockout q avg = Inr None \<longleftrightarrow> avg \<le> 0"
  by (auto simp add: days_until_stockout_def split: sum.splits)

text \<open>
  C2. For a stock level \<open>current_stock \<ge> 0\<close> (within the 64-bit range of the column) and the
  average rate the endpoint computes, the estimate is \<^verbatim>\<open>None\<close> exactly when the rate is
  \<open>\<le> 0\<close>; for a positive rate no exception is raised and the estimate is the floor of the
  binary64 quotient of the stock by the rate, which is \<open>\<ge> 0\<close>.
\<close>

theorem days_until_stockout_spec:
  assumes "avg_daily_sales tot SALES_AVG_DAYS = Inr avg"
    and "0 \<le> current_stock" and "current_stock < 2 ^ 63"
  shows "(days_until_stockout current_stock avg = Inr None \<longleftrightarrow> avg \<le> 0)
    \<and> (0 < avg \<longrightarrow>
         days_until_stockout current_stock avg =
           Inr (Some \<lfloor>round_binary64 (round_binary64 (of_int current_stock) / avg)\<rfloor>)
         \<and> 0 \<le> \<lfloor>round_binary64 (round_binary64 (of_int current_stock) / avg)\<rfloor>)"
proof (intro conjI impI)
  show "days_until_stockout current_stock avg = Inr None \<longleftrightarrow> avg \<le> 0"
    by (rule days_until_stockout_None_iff)
next
  assume pos: "0 < avg"
  have "1 / 2 ^ 64 \<le> avg"
    using assms(1) pos by (rule avg_daily_sales_pos_lower) (simp add: SALES_AVG_DAYS_def)
  moreover have "\<bar>current_stock\<bar> \<le> 2 ^ 63" using assms(2,3) by simp
  ultimately have "floor_int_div_float current_stock avg =
      Inr \<lfloor>round_binary64 (round_binary64 (of_int current_stock) / avg)\<rfloor>"
    by (rule floor_int_div_float_ok [rotated])
  with pos show "days_until_stockout current_stock avg =
      Inr (Some \<lfloor>round_binary64 (round_binary64 (of_int current_stock) / avg)\<rfloor>)"
    by (simp add: days_until_stockout_def)
next
  assume pos: "0 < avg"
  have "0 \<le> round_binary64 (rat_of_int current_stock)"
    using assms(2) by (intro round_binary64_nonneg) simp
  then have "0 \<le> round_binary64 (rat_of_int current_stock) / avg"
    using pos by simp
  then have "0 \<le> round_binary64 (round_binary64 (rat_of_int current_stock) / avg)"
    by (rule round_binary64_nonneg)
  then show "0 \<le> \<lfloor>round_binary64 (round_binary64 (of_int current_stock) / avg)\<rfloor>"
    by simp
qed

lemma avg_10: "avg_daily_sales 10 SALES_AVG_DAYS = Inr (6004799503160661 / 18014398509481984)"
  by code_simp

lemma days_5: "\<lfloor>round_binary64 (round_binary64 (of_int 5) / (6004799503160661 / 18014398509481984))\<rfloor> = (15::int)"
  by code_simp

theorem days_until_stockout_spec_witness:
  "avg_daily_sales 10 SALES_AVG_DAYS = Inr (6004799503160661 / 18014398509481984)
   \<and> (0::int) \<le> 5 \<and> (5::int) < 2 ^ 63
   \<and> (0::rat) < 6004799503160661 / 18014398509481984
   \<and> days_until_stockout 5 (6004799503160661 / 18014398509481984) = Inr (Some 15)"
proof -
  have a: "avg_daily_sales 10 SALES_AVG_DAYS = Inr (6004799503160661 / 18014398509481984)"
    by (rule avg_10)
  have b: "(0::int) \<le> 5" "(5::int) < 2 ^ 63" by simp_all
  have c: "(0::rat) < 6004799503160661 / 18014398509481984" by simp
  from days_until_stockout_spec [OF a b] c
  have "days_until_stockout 5 (6004799503160661 / 18014398509481984) =
      Inr (Some \<lfloor>round_binary64 (round_binary64 (of_int 5) / (6004799503160661 / 18014398509481984))\<rfloor>)"
    by blast
  then have "days_until_stockout 5 (6004799503160661 / 18014398509481984) = Inr (Some 15)"
    by (simp only: days_5)
  with a b c show ?thesis by simp
qed

section \<open>Average daily sales\<close>

text \<open>
  C3. For a sale history whose rows carry a timestamp and a 64-bit quantity, a reference
  time and any integer window: the filter keeps exactly the sales with timestamp
  \<open>\<ge> now - window\<close>, the average raises no exception, it is 0 when the window is \<open>\<le> 0\<close> or
  no sale qualifies, and otherwise it is the binary64 quotient of the summed quantities by
  the window. No total and no window make the division raise \<^verbatim>\<open>ZeroDivisionError\<close>.
\<close>

theorem avg_daily_sales_spec:
  assumes "\<forall>s \<in> set ss. Sale_created_at s \<noteq> None \<and> int64 (Sale_quantity s)"
    and "length ss < 2 ^ 64"
    and "sales_for_avg =
      filter (\<lambda>s. case Sale_created_at s of None \<Rightarrow> False
                 | Some t \<Rightarrow> now - timedelta_days window_days \<le> t) ss"
  shows "sales_since ss (now - timedelta_days window_days) = Inr sales_for_avg
    \<and> avg_daily_sales (sum_list (map Sale_quantity sales_for_avg)) window_days =
        Inr (if window_days \<le> 0 \<or> sales_for_avg = [] then 0
             else round_binary64
               (of_int (sum_list (map Sale_quantity sales_for_avg)) / of_int window_days))
    \<and> (\<forall>tot days. avg_daily_sales tot days \<noteq> Inl ZeroDivisionError)"
proof (intro conjI allI)
  show "sales_since ss (now - timedelta_days window_days) = Inr sales_for_avg"
    unfolding assms(3) using assms(1) by (intro sales_since_ok) simp
next
  have "\<bar>sum_list (map Sale_quantity sales_for_avg)\<bar> \<le> 2 ^ 127"
    unfolding assms(3) using assms(1,2) by (intro sold_quantity_bound) simp_all
  then have "avg_daily_sales (sum_list (map Sale_quantity sales_for_avg)) window_days =
      Inr (if window_days \<le> 0 then 0
           else round_binary64
             (of_int (sum_list (map Sale_quantity sales_for_avg)) / of_int window_days))"
    by (rule avg_daily_sales_ok)
  then show "avg_daily_sales (sum_list (map Sale_quantity sales_for_avg)) window_days =
        Inr (if window_days \<le> 0 \<or> sales_for_avg = [] then 0
             else round_binary64
               (of_int (sum_list (map Sale_quantity sales_for_avg)) / of_int window_days))"
    by (cases "sales_for_avg = []") (simp_all add: round_binary64_zero)
next
  fix tot days
  show "avg_daily_sales tot days \<noteq> Inl ZeroDivisionError"
    by (simp add: avg_daily_sales_def int_truediv_def Let_def)
qed


theorem avg_daily_sales_spec_witness:
  "sales_since [\<lparr>Sale_id = 1, Sale_product_id = Some 1, Sale_quantity = 10,
                  Sale_created_at = Some (timedelta_days 395)\<rparr>]
        (seed_now - timedelta_days 30) =
      Inr [\<lparr>Sale_id = 1, Sale_product_id = Some 1, Sale_quantity = 10,
            Sale_created_at = Some (timedelta_days 395)\<rparr>]
   \<and> avg_daily_sales 10 30 = Inr (6004799503160661 / 18014398509481984)"
proof -
  define s1 where "s1 = \<lparr>Sale_id = 1, Sale_product_id = Some 1, Sale_quantity = 10,
    Sale_created_at = Some (timedelta_days 395)\<rparr>"
  have h1: "\<forall>s \<in> set [s1]. Sale_created_at s \<noteq> None \<and> int64 (Sale_quantity s)"
    by (simp add: s1_def int64_def)
  have h2: "length [s1] < 2 ^ 64" by simp
  have h3: "[s1] = filter (\<lambda>s. case Sale_created_at s of None \<Rightarrow> False
      | Some t \<Rightarrow> seed_now - timedelta_days 30 \<le> t) [s1]"
    by (simp add: s1_def timedelta_days_def seed_now_def)
  from avg_daily_sales_spec [OF h1 h2 h3]
  have "sales_since [s1] (seed_now - timedelta_days 30) = Inr [s1]"
    and "avg_daily_sales 10 30 = Inr (6004799503160661 / 18014398509481984)"
    by (simp_all add: s1_def round_binary64_third)
  then show ?thesis unfolding s1_def by simp
qed

section \<open>When an alert is emitted\<close>

text \<open>
  C1. On data that keeps the integrity constraints, for an existing company the endpoint
  returns an alert list with status 200, and an alert for the pair (product, warehouse) is in
  it if and only if the company holds an inventory row of that product in that warehouse
  whose quantity is strictly below the product's threshold and the product has a sale with
  timestamp at or after \<open>now\<close> minus the lookback window. Every alert comes from such a row:
  its stock is strictly below its threshold and its product has recent activity, so a
  product without a qualifying sale and a row at or above the threshold produce none.
\<close>

theorem low_stock_alerts_iff:
  assumes "db_ok d" and "Company_query_get d company_id = Inr (Some c)"
  shows "\<exists>alerts. low_stock_alerts d company_id now = Inr (AlertsBody alerts (length alerts), 200)
    \<and> (\<forall>pid wid.
          (\<exists>a \<in> set alerts. alert_product_id a = pid \<and> alert_warehouse_id a = wid) \<longleftrightarrow>
          (\<exists>iv \<in> set (Inventory_query_in d (map Warehouse_id (Company_warehouses d c))).
             \<exists>p q. Inventory_product_id iv = Some pid \<and> Inventory_warehouse_id iv = Some wid
               \<and> Product_query_get d (Some pid) = Some p
               \<and> recent_activity d p (now - timedelta_days SALES_LOOKBACK_DAYS)
               \<and> Inventory_quantity iv = Some q \<and> q < get_threshold_for_product p))
    \<and> (\<forall>a \<in> set alerts. alert_current_stock a < alert_threshold a
          \<and> (\<exists>iv \<in> set (Inventory_query_in d (map Warehouse_id (Company_warehouses d c))).
                \<exists>p. Product_query_get d (Inventory_product_id iv) = Some p
                  \<and> recent_activity d p (now - timedelta_days SALES_LOOKBACK_DAYS)
                  \<and> alert_product_id a = Product_id p
                  \<and> Inventory_warehouse_id iv = Some (alert_warehouse_id a)
                  \<and> Inventory_quantity iv = Some (alert_current_stock a)
                  \<and> alert_threshold a = get_threshold_for_product p))"
proof -
  define invs where "invs = Inventory_query_in d (map Warehouse_id (Company_warehouses d c))"
  define lc where "lc = now - timedelta_days SALES_LOOKBACK_DAYS"
  define ac where "ac = now - timedelta_days SALES_AVG_DAYS"
  from low_stock_alerts_result [OF assms, of now]
  obtain alerts where res: "low_stock_alerts d company_id now =
      Inr (AlertsBody alerts (length alerts), 200)"
    and mem: "\<And>a. a \<in> set alerts \<longleftrightarrow>
          (\<exists>iv \<in> set invs. \<exists>p q w days.
               Product_query_get d (Inventory_product_id iv) = Some p
               \<and> recent_activity d p lc
               \<and> Inventory_quantity iv = Some q \<and> q < get_threshold_for_product p
               \<and> Inventory_warehouse d iv = Some w
               \<and> days_until_stockout q (product_avg d p ac) = Inr days
               \<and> a = make_alert d p w q (get_threshold_for_product p) days)"
    unfolding invs_def lc_def ac_def by blast
  have pairs: "(\<exists>a \<in> set alerts. alert_product_id a = pid \<and> alert_warehouse_id a = wid) \<longleftrightarrow>
          (\<exists>iv \<in> set invs.
             \<exists>p q. Inventory_product_id iv = Some pid \<and> Inventory_warehouse_id iv = Some wid
               \<and> Product_query_get d (Some pid) = Some p
               \<and> recent_activity d p lc
               \<and> Inventory_quantity iv = Some q \<and> q < get_threshold_for_product p)"
    for pid wid
  proof
    assume "\<exists>a \<in> set alerts. alert_product_id a = pid \<and> alert_warehouse_id a = wid"
    then obtain a where a: "a \<in> set alerts" "alert_product_id a = pid"
      "alert_warehouse_id a = wid" by blast
    from a(1) obtain iv p q w days where iv: "iv \<in> set invs"
      and r: "Product_query_get d (Inventory_product_id iv) = Some p" "recent_activity d p lc"
        "Inventory_quantity iv = Some q" "q < get_threshold_for_product p"
        "Inventory_warehouse d iv = Some w"
      and eq: "a = make_alert d p w q (get_threshold_for_product p) days"
      unfolding mem by blast
    from a(2,3) have ids: "Product_id p = pid" "Warehouse_id w = wid"
      unfolding eq by (simp_all add: make_alert_fields)
    from Product_query_get_Some [OF r(1)] ids(1)
    have "Inventory_product_id iv = Some pid" by simp
    moreover from Inventory_warehouse_Some [OF r(5)] ids(2)
    have "Inventory_warehouse_id iv = Some wid" by simp
    ultimately show "\<exists>iv \<in> set invs.
             \<exists>p q. Inventory_product_id iv = Some pid \<and> Inventory_warehouse_id iv = Some wid
               \<and> Product_query_get d (Some pid) = Some p
               \<and> recent_activity d p lc
               \<and> Inventory_quantity iv = Some q \<and> q < get_threshold_for_product p"
      using iv r by auto
  next
    assume "\<exists>iv \<in> set invs.
             \<exists>p q. Inventory_product_id iv = Some pid \<and> Inventory_warehouse_id iv = Some wid
               \<and> Product_query_get d (Some pid) = Some p
               \<and> recent_activity d p lc
               \<and> Inventory_quantity iv = Some q \<and> q < get_threshold_for_product p"
    then obtain iv p q where iv: "iv \<in> set invs"
      and r: "Inventory_product_id iv = Some pid" "Inventory_warehouse_id iv = Some wid"
        "Product_query_get d (Some pid) = Some p" "recent_activity d p lc"
        "Inventory_quantity iv = Some q" "q < get_threshold_for_product p"
      by blast
    from iv have "Inventory_warehouse d iv \<noteq> None"
      unfolding invs_def by (rule Inventory_warehouse_of_query)
    then obtain w where w: "Inventory_warehouse d iv = Some w" by blast
    from Inventory_warehouse_Some [OF w] r(2) have wid: "Warehouse_id w = wid" by simp
    from Product_query_get_Some [OF r(3)] have pid: "Product_id p = pid" by simp
    from iv have "iv \<in> set (inventories d)"
      unfolding invs_def using Inventory_query_in_subset by blast
    from db_ok_rows(1) [OF assms(1) this] r(5) have "int64 q" by auto
    from days_until_stockout_ok [OF this product_avg_range [OF assms(1), of p ac]]
    obtain days where days: "days_until_stockout q (product_avg d p ac) = Inr days" by blast
    have get: "Product_query_get d (Inventory_product_id iv) = Some p"
      using r(1,3) by simp
    have "make_alert d p w q (get_threshold_for_product p) days \<in> set alerts"
      unfolding mem using iv get r(4,5,6) w days by blast
    moreover have "alert_product_id (make_alert d p w q (get_threshold_for_product p) days) = pid"
      "alert_warehouse_id (make_alert d p w q (get_threshold_for_product p) days) = wid"
      using pid wid by (simp_all add: make_alert_fields)
    ultimately show "\<exists>a \<in> set alerts. alert_product_id a = pid \<and> alert_warehouse_id a = wid"
      by blast
  qed
  have each: "alert_current_stock a < alert_threshold a
          \<and> (\<exists>iv \<in> set invs.
                \<exists>p. Product_query_get d (Inventory_product_id iv) = Some p
                  \<and> recent_activity d p lc
                  \<and> alert_product_id a = Product_id p
                  \<and> Inventory_warehouse_id iv = Some (alert_warehouse_id a)
                  \<and> Inventory_quantity iv = Some (alert_current_stock a)
                  \<and> alert_threshold a = get_threshold_for_product p)"
    if "a \<in> set alerts" for a
  proof -
    from that obtain iv p q w days where iv: "iv \<in> set invs"
      and r: "Product_query_get d (Inventory_product_id iv) = Some p" "recent_activity d p lc"
        "Inventory_quantity iv = Some q" "q < get_threshold_for_product p"
        "Inventory_warehouse d iv = Some w"
      and a: "a = make_alert d p w q (get_threshold_for_product p) days"
      unfolding mem by blast
    from Inventory_warehouse_Some [OF r(5)]
    have "Inventory_warehouse_id iv = Some (Warehouse_id w)" .
    with iv r show ?thesis unfolding a by (auto simp add: make_alert_fields)
  qed
  from res pairs each show ?thesis unfolding invs_def lc_def by blast
qed


theorem low_stock_alerts_iff_witness:
  "\<exists>alerts. low_stock_alerts seed_db 1 seed_now = Inr (AlertsBody alerts (length alerts), 200)
     \<and> (\<exists>a. a \<in> set alerts \<and> alert_product_id a = 1 \<and> alert_warehouse_id a = 1
           \<and> alert_current_stock a < alert_threshold a)"
proof -
  let ?c = "\<lparr>Company_id = 1, Company_name = ''Acme Corp''\<rparr>"
  have row: "\<exists>iv \<in> set (Inventory_query_in seed_db (map Warehouse_id (Company_warehouses seed_db ?c))).
      \<exists>p q. Inventory_product_id iv = Some 1 \<and> Inventory_warehouse_id iv = Some 1
        \<and> Product_query_get seed_db (Some 1) = Some p
        \<and> recent_activity seed_db p (seed_now - timedelta_days SALES_LOOKBACK_DAYS)
        \<and> Inventory_quantity iv = Some q \<and> q < get_threshold_for_product p"
    by (simp add: Inventory_query_in_def Company_warehouses_def seed_db_def
        Product_query_get_def recent_activity_def Product_sales_def
        get_threshold_for_product_def threshold_for_type_def THRESHOLDS_BY_TYPE_def
        timedelta_days_def seed_now_def SALES_LOOKBACK_DAYS_def)
  from low_stock_alerts_iff [OF db_ok_seed_db Company_query_get_seed_db, of seed_now]
  obtain alerts where res: "low_stock_alerts seed_db 1 seed_now =
      Inr (AlertsBody alerts (length alerts), 200)"
    and pairs: "\<And>pid wid.
          (\<exists>a \<in> set alerts. alert_product_id a = pid \<and> alert_warehouse_id a = wid) \<longleftrightarrow>
          (\<exists>iv \<in> set (Inventory_query_in seed_db (map Warehouse_id (Company_warehouses seed_db ?c))).
             \<exists>p q. Inventory_product_id iv = Some pid \<and> Inventory_warehouse_id iv = Some wid
               \<and> Product_query_get seed_db (Some pid) = Some p
               \<and> recent_activity seed_db p (seed_now - timedelta_days SALES_LOOKBACK_DAYS)
               \<and> Inventory_quantity iv = Some q \<and> q < get_threshold_for_product p)"
    and each: "\<And>a. a \<in> set alerts \<Longrightarrow> alert_current_stock a < alert_threshold a"
    by blast
  from row obtain a where "a \<in> set alerts" "alert_product_id a = 1" "alert_warehouse_id a = 1"
    unfolding pairs [symmetric] by blast
  with each [of a] res show ?thesis by blast
qed

section \<open>End-to-end scenario A\<close>

text \<open>
  C8. A company whose only inventory row holds 5 units in warehouse W1 of a product of
  category \<^verbatim>\<open>normal\<close> whose only sale, of quantity 10, is dated five days before \<open>now\<close>:
  the response is exactly one alert, for W1, with threshold 20, current stock 5 and
  \<^verbatim>\<open>days_until_stockout\<close> 15, and \<^verbatim>\<open>total_alerts\<close> 1.
\<close>

theorem low_stock_alerts_scenario_A:
  assumes "Company_query_get d company_id = Inr (Some c)"
    and "Inventory_query_in d (map Warehouse_id (Company_warehouses d c)) = [iv]"
    and "Inventory_quantity iv = Some 5"
    and "Inventory_warehouse d iv = Some w"
    and "Product_query_get d (Inventory_product_id iv) = Some p"
    and "Product_product_type p = Some ''normal''"
    and "Product_sales d p = [s]"
    and "Sale_quantity s = 10"
    and "Sale_created_at s = Some (now - timedelta_days 5)"
  shows "low_stock_alerts d company_id now =
      Inr (AlertsBody [make_alert d p w 5 20 (Some 15)] 1, 200)
    \<and> alert_warehouse_id (make_alert d p w 5 20 (Some 15)) = Warehouse_id w
    \<and> alert_threshold (make_alert d p w 5 20 (Some 15)) = 20
    \<and> alert_current_stock (make_alert d p w 5 20 (Some 15)) = 5
    \<and> alert_days_until_stockout (make_alert d p w 5 20 (Some 15)) = Some 15"
proof -
  have g: "prod_inv_map [iv] = [(Inventory_product_id iv, [iv])]"
    by (simp add: prod_inv_map_def)
  have thr: "get_threshold_for_product p = 20"
    using assms(6) by (simp add: get_threshold_for_product_def threshold_normal)
  have r1: "sales_since (Product_sales d p) (now - timedelta_days SALES_LOOKBACK_DAYS) = Inr [s]"
    using assms(9) by (simp add: assms(7) timedelta_days_def SALES_LOOKBACK_DAYS_def)
  have r2: "sales_since (Product_sales d p) (now - timedelta_days SALES_AVG_DAYS) = Inr [s]"
    using assms(9) by (simp add: assms(7) timedelta_days_def SALES_AVG_DAYS_def)
  have "product_loop d (now - timedelta_days SALES_LOOKBACK_DAYS)
      (now - timedelta_days SALES_AVG_DAYS) [(Inventory_product_id iv, [iv])] [] =
      Inr [make_alert d p w 5 20 (Some 15)]"
    using assms(3,4,5,8) by (simp add: r1 r2 avg_10 thr days_until_stockout_5)
  then have "low_stock_alerts d company_id now =
      Inr (AlertsBody [make_alert d p w 5 20 (Some 15)] 1, 200)"
    using assms(1,2) by (simp add: low_stock_alerts_def g)
  then show ?thesis by (simp add: make_alert_fields)
qed

theorem low_stock_alerts_scenario_A_witness:
  "low_stock_alerts scenario_db 1 seed_now =
     Inr (AlertsBody
       [\<lparr>alert_product_id = 1, alert_product_name = ''Widget A'', alert_sku = ''WID-001'',
         alert_warehouse_id = 1, alert_warehouse_name = ''W1'', alert_current_stock = 5,
         alert_threshold = 20, alert_days_until_stockout = Some 15,
         alert_supplier = None\<rparr>] 1, 200)"
proof -
  let ?c = "\<lparr>Company_id = 1, Company_name = ''Acme Corp''\<rparr>"
  let ?iv = "\<lparr>Inventory_id = 1, Inventory_product_id = Some 1, Inventory_warehouse_id = Some 1,
          Inventory_quantity = Some 5\<rparr>"
  let ?w = "\<lparr>Warehouse_id = 1, Warehouse_name = ''W1'', Warehouse_company_id = Some 1\<rparr>"
  let ?p = "\<lparr>Product_id = 1, Product_name = ''Widget A'', Product_sku = ''WID-001'',
          Product_product_type = Some ''normal'', Product_supplier_id = None\<rparr>"
  let ?s = "\<lparr>Sale_id = 1, Sale_product_id = Some 1, Sale_quantity = 10,
          Sale_created_at = Some (timedelta_days 395)\<rparr>"
  have h1: "Company_query_get scenario_db 1 = Inr (Some ?c)"
    by (simp add: Company_query_get_def int64_def scenario_db_def)
  have h2: "Inventory_query_in scenario_db (map Warehouse_id (Company_warehouses scenario_db ?c))
      = [?iv]"
    by (simp add: Inventory_query_in_def Company_warehouses_def scenario_db_def)
  have h3: "Inventory_quantity ?iv = Some 5" by simp
  have h4: "Inventory_warehouse scenario_db ?iv = Some ?w"
    by (simp add: Inventory_warehouse_def scenario_db_def)
  have h5: "Product_query_get scenario_db (Inventory_product_id ?iv) = Some ?p"
    by (simp add: Product_query_get_def scenario_db_def)
  have h6: "Product_product_type ?p = Some ''normal''" by simp
  have h7: "Product_sales scenario_db ?p = [?s]"
    by (simp add: Product_sales_def scenario_db_def)
  have h8: "Sale_quantity ?s = 10" by simp
  have h9: "Sale_created_at ?s = Some (seed_now - timedelta_days 5)"
    by (simp add: seed_now_def timedelta_days_def)
  from low_stock_alerts_scenario_A [OF h1 h2 h3 h4 h5 h6 h7 h8 h9]
  show ?thesis
    by (simp add: make_alert_def supplier_info_def Product_supplier_def)
qed

section \<open>Alerts at rate zero\<close>

text \<open>
  C7. On well-formed data, a product with at least one sale at or after the lookback cutoff
  and every sale before the averaging cutoff has average rate 0, and each of its inventory
  rows below the threshold yields an alert for that row's warehouse whose
  \<^verbatim>\<open>days_until_stockout\<close> is \<^verbatim>\<open>None\<close>: the zero-rate branch is reached, not suppressed.
\<close>

theorem low_stock_alerts_zero_rate:
  assumes "db_ok d" and "Company_query_get d company_id = Inr (Some c)"
    and "iv \<in> set (Inventory_query_in d (map Warehouse_id (Company_warehouses d c)))"
    and "Product_query_get d (Inventory_product_id iv) = Some p"
    and "Inventory_quantity iv = Some q" and "q < get_threshold_for_product p"
    and "Inventory_warehouse d iv = Some w"
    and "\<exists>s \<in> set (Product_sales d p). \<exists>t. Sale_created_at s = Some t
          \<and> now - timedelta_days SALES_LOOKBACK_DAYS \<le> t"
    and "\<forall>s \<in> set (Product_sales d p). \<forall>t. Sale_created_at s = Some t
          \<longrightarrow> t < now - timedelta_days SALES_AVG_DAYS"
  shows "\<exists>alerts. low_stock_alerts d company_id now = Inr (AlertsBody alerts (length alerts), 200)
    \<and> make_alert d p w q (get_threshold_for_product p) None \<in> set alerts
    \<and> alert_warehouse_id (make_alert d p w q (get_threshold_for_product p) None) = Warehouse_id w
    \<and> alert_current_stock (make_alert d p w q (get_threshold_for_product p) None) = q
    \<and> alert_days_until_stockout (make_alert d p w q (get_threshold_for_product p) None) = None
    \<and> product_avg d p (now - timedelta_days SALES_AVG_DAYS) = 0"
proof -
  have "filter (\<lambda>s. case Sale_created_at s of None \<Rightarrow> False
      | Some t \<Rightarrow> now - timedelta_days SALES_AVG_DAYS \<le> t) (Product_sales d p) = []"
    using assms(9) by (auto simp add: filter_empty_conv split: option.splits)
  then have avg: "product_avg d p (now - timedelta_days SALES_AVG_DAYS) = 0"
    by (simp add: product_avg_def round_binary64_zero)
  have days: "days_until_stockout q (product_avg d p (now - timedelta_days SALES_AVG_DAYS)) =
      Inr None"
    by (simp add: avg days_until_stockout_def)
  have recent: "recent_activity d p (now - timedelta_days SALES_LOOKBACK_DAYS)"
    using assms(8) by (simp add: recent_activity_def)
  from low_stock_alerts_row [OF assms(1-7) recent days] avg
  show ?thesis by (simp add: make_alert_fields)
qed

theorem low_stock_alerts_zero_rate_witness:
  "\<exists>alerts. low_stock_alerts scenario_db 1 (timedelta_days 440) =
       Inr (AlertsBody alerts (length alerts), 200)
     \<and> \<lparr>alert_product_id = 1, alert_product_name = ''Widget A'', alert_sku = ''WID-001'',
         alert_warehouse_id = 1, alert_warehouse_name = ''W1'', alert_current_stock = 5,
         alert_threshold = 20, alert_days_until_stockout = None,
         alert_supplier = None\<rparr> \<in> set alerts"
proof -
  let ?iv = "\<lparr>Inventory_id = 1, Inventory_product_id = Some 1, Inventory_warehouse_id = Some 1,
          Inventory_quantity = Some 5\<rparr>"
  let ?p = "\<lparr>Product_id = 1, Product_name = ''Widget A'', Product_sku = ''WID-001'',
          Product_product_type = Some ''normal'', Product_supplier_id = None\<rparr>"
  have h4: "Product_query_get scenario_db (Inventory_product_id ?iv) = Some ?p"
    using scenario_db_rows(3) by simp
  have h5: "Inventory_quantity ?iv = Some 5" by simp
  have h6: "5 < get_threshold_for_product ?p"
    by (simp add: get_threshold_for_product_def threshold_normal)
  have h8: "\<exists>s \<in> set (Product_sales scenario_db ?p). \<exists>t. Sale_created_at s = Some t
          \<and> timedelta_days 440 - timedelta_days SALES_LOOKBACK_DAYS \<le> t"
    by (simp add: scenario_db_rows(5) timedelta_days_def SALES_LOOKBACK_DAYS_def)
  have h9: "\<forall>s \<in> set (Product_sales scenario_db ?p). \<forall>t. Sale_created_at s = Some t
          \<longrightarrow> t < timedelta_days 440 - timedelta_days SALES_AVG_DAYS"
    by (simp add: scenario_db_rows(5) timedelta_days_def SALES_AVG_DAYS_def)
  from low_stock_alerts_zero_rate
    [OF db_ok_scenario_db scenario_db_rows(1,2) h4 h5 h6 scenario_db_rows(4) h8 h9]
  show ?thesis
    by (simp add: make_alert_def supplier_info_def Product_supplier_def
        get_threshold_for_product_def threshold_normal) blast
qed

section \<open>Future-dated sales\<close>

text \<open>
  C10. Both filters test only \<^verbatim>\<open>created_at >= cutoff\<close>: a sale dated strictly after \<open>now\<close>
  passes the lookback filter and the averaging filter. A product whose only sale is
  future-dated, with a positive quantity, has recent activity and a positive average rate,
  and its rows below the threshold get an alert with a \<^verbatim>\<open>days_until_stockout\<close> estimate.
\<close>

theorem future_sales_counted:
  assumes "db_ok d" and "Company_query_get d company_id = Inr (Some c)"
    and "iv \<in> set (Inventory_query_in d (map Warehouse_id (Company_warehouses d c)))"
    and "Product_query_get d (Inventory_product_id iv) = Some p"
    and "Inventory_quantity iv = Some q" and "q < get_threshold_for_product p"
    and "Inventory_warehouse d iv = Some w"
    and "Product_sales d p = [s]" and "Sale_created_at s = Some t" and "now < t"
    and "0 < Sale_quantity s"
  shows "sales_since (Product_sales d p) (now - timedelta_days SALES_LOOKBACK_DAYS) = Inr [s]
    \<and> sales_since (Product_sales d p) (now - timedelta_days SALES_AVG_DAYS) = Inr [s]
    \<and> 0 < product_avg d p (now - timedelta_days SALES_AVG_DAYS)
    \<and> (\<exists>alerts n. low_stock_alerts d company_id now =
            Inr (AlertsBody alerts (length alerts), 200)
          \<and> make_alert d p w q (get_threshold_for_product p) (Some n) \<in> set alerts)
    \<and> (\<forall>ss r s' t'.
          (sales_since ss (now - timedelta_days SALES_LOOKBACK_DAYS) = Inr r
             \<or> sales_since ss (now - timedelta_days SALES_AVG_DAYS) = Inr r)
          \<and> s' \<in> set ss \<and> Sale_created_at s' = Some t' \<and> now < t'
          \<longrightarrow> s' \<in> set r)"
proof (intro conjI allI impI)
  have lc: "now - timedelta_days SALES_LOOKBACK_DAYS \<le> now"
    and ac: "now - timedelta_days SALES_AVG_DAYS \<le> now"
    by (simp_all add: timedelta_days_def SALES_LOOKBACK_DAYS_def SALES_AVG_DAYS_def)
  show r1: "sales_since (Product_sales d p) (now - timedelta_days SALES_LOOKBACK_DAYS) = Inr [s]"
    using assms(9,10) lc by (simp add: assms(8))
  show r2: "sales_since (Product_sales d p) (now - timedelta_days SALES_AVG_DAYS) = Inr [s]"
    using assms(9,10) ac by (simp add: assms(8))
  have "filter (\<lambda>s. case Sale_created_at s of None \<Rightarrow> False
      | Some t \<Rightarrow> now - timedelta_days SALES_AVG_DAYS \<le> t) (Product_sales d p) = [s]"
    using assms(9,10) ac by (simp add: assms(8))
  then have avg: "product_avg d p (now - timedelta_days SALES_AVG_DAYS) =
      round_binary64 (of_int (Sale_quantity s) / of_int SALES_AVG_DAYS)"
    by (simp add: product_avg_def)
  show pos: "0 < product_avg d p (now - timedelta_days SALES_AVG_DAYS)"
    unfolding avg using assms(11) by (intro round_binary64_pos) simp
  have recent: "recent_activity d p (now - timedelta_days SALES_LOOKBACK_DAYS)"
    using assms(9,10) lc by (intro recent_activityI [of s _ _ t]) (simp_all add: assms(8))
  from assms(3) have "iv \<in> set (inventories d)"
    using Inventory_query_in_subset by blast
  from db_ok_rows(1) [OF assms(1) this] assms(5) have "int64 q" by auto
  from days_until_stockout_ok [OF this product_avg_range [OF assms(1)]]
  obtain days where days:
    "days_until_stockout q (product_avg d p (now - timedelta_days SALES_AVG_DAYS)) = Inr days"
    by blast
  with pos have "days \<noteq> None"
    using days_until_stockout_None_iff
      [of q "product_avg d p (now - timedelta_days SALES_AVG_DAYS)"] by auto
  then obtain n where n: "days = Some n" by blast
  from low_stock_alerts_row [OF assms(1-7) recent days]
  show "\<exists>alerts n. low_stock_alerts d company_id now =
            Inr (AlertsBody alerts (length alerts), 200)
          \<and> make_alert d p w q (get_threshold_for_product p) (Some n) \<in> set alerts"
    unfolding n by blast
  fix ss r s' t'
  assume a: "(sales_since ss (now - timedelta_days SALES_LOOKBACK_DAYS) = Inr r
             \<or> sales_since ss (now - timedelta_days SALES_AVG_DAYS) = Inr r)
          \<and> s' \<in> set ss \<and> Sale_created_at s' = Some t' \<and> now < t'"
  then show "s' \<in> set r"
    using lc ac by (auto simp add: sales_since_Inr_iff)
qed

theorem future_sales_counted_witness:
  "sales_since
     [\<lparr>Sale_id = 1, Sale_product_id = Some 1, Sale_quantity = 10,
       Sale_created_at = Some (timedelta_days 395)\<rparr>]
     (timedelta_days 390 - timedelta_days SALES_LOOKBACK_DAYS) =
     Inr [\<lparr>Sale_id = 1, Sale_product_id = Some 1, Sale_quantity = 10,
           Sale_created_at = Some (timedelta_days 395)\<rparr>]
   \<and> (\<exists>alerts n. low_stock_alerts scenario_db 1 (timedelta_days 390) =
          Inr (AlertsBody alerts (length alerts), 200)
        \<and> \<lparr>alert_product_id = 1, alert_product_name = ''Widget A'', alert_sku = ''WID-001'',
            alert_warehouse_id = 1, alert_warehouse_name = ''W1'', alert_current_stock = 5,
            alert_threshold = 20, alert_days_until_stockout = Some n,
            alert_supplier = None\<rparr> \<in> set alerts)"
proof -
  let ?iv = "\<lparr>Inventory_id = 1, Inventory_product_id = Some 1, Inventory_warehouse_id = Some 1,
          Inventory_quantity = Some 5\<rparr>"
  let ?p = "\<lparr>Product_id = 1, Product_name = ''Widget A'', Product_sku = ''WID-001'',
          Product_product_type = Some ''normal'', Product_supplier_id = None\<rparr>"
  let ?s = "\<lparr>Sale_id = 1, Sale_product_id = Some 1, Sale_quantity = 10,
          Sale_created_at = Some (timedelta_days 395)\<rparr>"
  have h4: "Product_query_get scenario_db (Inventory_product_id ?iv) = Some ?p"
    using scenario_db_rows(3) by simp
  have h5: "Inventory_quantity ?iv = Some 5" by simp
  have h6: "5 < get_threshold_for_product ?p"
    by (simp add: get_threshold_for_product_def threshold_normal)
  have h9: "Sale_created_at ?s = Some (timedelta_days 395)" by simp
  have h10: "timedelta_days 390 < timedelta_days 395" by (simp add: timedelta_days_def)
  have h11: "0 < Sale_quantity ?s" by simp
  from future_sales_counted
    [OF db_ok_scenario_db scenario_db_rows(1,2) h4 h5 h6 scenario_db_rows(4,5) h9 h10 h11]
  show ?thesis
    by (simp add: make_alert_def supplier_info_def Product_supplier_def
        get_threshold_for_product_def threshold_normal scenario_db_rows(5))
qed

end
